theory Spec2Isabelle
  imports Main "HOL-Library.AList"
begin

section \<open>Values, errors and the process state\<close>

text \<open>
  Identifiers of stored records are Python ints or strings. An unset identifier
  is Python's None and is written \<open>None\<close> of \<open>obj_id option\<close>.
\<close>

datatype obj_id = IdInt int | IdStr string

type_synonym json = "(string \<times> string) list"

text \<open>A datastore entity: its key (None until the first put) and its JSON text.\<close>

record entity =
  entity_key :: "obj_id option"
  entity_data :: string

text \<open>A DTO, as every DTO class of models.py: \<open>self.id\<close> and \<open>self.dict\<close>.\<close>

record dto =
  dto_id :: "obj_id option"
  dto_dict :: json

text \<open>
  The Python objects that travel through the cache. \<open>NO_OBJECT\<close> is the one dict
  object bound to the module variable of that name (models.py line 45); \<open>PDict\<close>
  is any other dict object, given by its items. Two values are the same object
  (Python's \<open>is\<close>) iff they are equal in HOL; Python's \<open>==\<close> is written out below.
\<close>

datatype pyval =
    PNone
  | NO_OBJECT
  | PDict "(obj_id option \<times> dto) list"
  | PEntity entity
  | PInt int
  | PStr string

text \<open>Python truthiness (\<open>if value:\<close>, \<open>not value\<close>).\<close>

fun truthy :: "pyval \<Rightarrow> bool" where
  "truthy PNone = False"
| "truthy NO_OBJECT = False"
| "truthy (PDict items) = (items \<noteq> [])"
| "truthy (PEntity e) = True"
| "truthy (PInt n) = (n \<noteq> 0)"
| "truthy (PStr s) = (s \<noteq> [])"

text \<open>
  \<open>NO_OBJECT == value\<close>: dict equality is structural, so every dict without items
  is equal to the sentinel; no other kind of value is equal to a dict.
\<close>

fun eq_NO_OBJECT :: "pyval \<Rightarrow> bool" where
  "eq_NO_OBJECT NO_OBJECT = True"
| "eq_NO_OBJECT (PDict items) = (items = [])"
| "eq_NO_OBJECT v = False"

text \<open>\<open>value is None\<close>.\<close>

fun is_None :: "pyval \<Rightarrow> bool" where
  "is_None PNone = True"
| "is_None v = False"

datatype error =
    AssertionError string
  | AttributeError
  | TypeError
  | ValueError
  | BadArgumentError
  | BadKeyError
  | NotSavedError
  | KeyError
  | CacheBackendError

text \<open>
  The process state. The first four fields are the class attributes of
  MemcacheManager; then the configuration flag, the performance counters, the
  request environment, the memcache service, the datastore, and two probes
  (the number of datastore queries run and the log of post-load hook calls).
  The interpreter's \<open>sys.getsizeof\<close> (the shallow size of an object in memory),
  the size of a value as the memcache client serializes it, \<open>int()\<close> on a string
  and \<open>'%s' %\<close> on an
  identifier, and the JSON codec of the transforms module, are parameters.
\<close>

record world =
  LOCAL_CACHE :: "(string \<Rightarrow> (string \<Rightarrow> pyval option) option) option"
  IS_READONLY :: bool
  READONLY_REENTRY_COUNT :: int
  READONLY_APP_CONTEXT :: "nat option"
  CAN_USE_MEMCACHE :: bool
  CACHE_PUT :: nat
  CACHE_PUT_TOO_BIG :: nat
  CACHE_HIT :: nat
  CACHE_MISS :: nat
  CACHE_DELETE :: nat
  CACHE_PUT_LOCAL :: nat
  CACHE_HIT_LOCAL :: nat
  CACHE_MISS_LOCAL :: nat
  current_course :: "nat option"
  fs_is_in_readonly :: "nat \<Rightarrow> bool"
  current_namespace :: string
  DEFAULT_NAMESPACE_NAME :: string
  memcache :: "string \<times> string \<Rightarrow> pyval option"
  memcache_unavailable :: bool
  datastore :: "((string \<times> obj_id) \<times> string) list"
  next_auto_id :: int
  query_runs :: nat
  hook_calls :: "(nat \<times> dto list) list"
  getsizeof :: "pyval \<Rightarrow> nat"
  getsizeof_str :: "string \<Rightarrow> nat"
  serialized_size :: "pyval \<Rightarrow> nat"
  int_of_str :: "string \<Rightarrow> int option"
  str_of_int :: "int \<Rightarrow> string"
  transforms_loads :: "string \<Rightarrow> json"
  transforms_dumps :: "json \<Rightarrow> string"

definition MEMCACHE_MAX :: nat where
  "MEMCACHE_MAX = 1024 * 1024 - 96 - 250"

definition MEMCACHE_MULTI_MAX :: nat where
  "MEMCACHE_MULTI_MAX = 32 * 1024 * 1024"

section \<open>MemcacheManager: the read-only snapshot\<close>

text \<open>
  Modelled from the spec: sites.ApplicationContext.check_same is not among the
  sources; the calling context matches the recorded owning context when it is
  that context. \<open>sites.get_course_for_current_request()\<close> is the field
  \<open>current_course\<close>.
\<close>

definition check_same :: "nat \<Rightarrow> nat option \<Rightarrow> bool" where
  "check_same owner app_context = (app_context = Some owner)"

definition is_same_app_context_if_set :: "world \<Rightarrow> bool" where
  "is_same_app_context_if_set w =
     (case READONLY_APP_CONTEXT w of
        None \<Rightarrow> True
      | Some owner \<Rightarrow> check_same owner (current_course w))"

text \<open>
  Modelled from the spec: the file system object of an application context is not
  among the sources; its begin_readonly and end_readonly place its resources into
  and out of read-only mode, and is_in_readonly reads that mode.
\<close>

definition fs_begin_readonly_of :: "nat \<Rightarrow> world \<Rightarrow> world" where
  "fs_begin_readonly_of c w = w\<lparr>fs_is_in_readonly := (fs_is_in_readonly w)(c := True)\<rparr>"

definition fs_end_readonly_of :: "nat \<Rightarrow> world \<Rightarrow> world" where
  "fs_end_readonly_of c w = w\<lparr>fs_is_in_readonly := (fs_is_in_readonly w)(c := False)\<rparr>"

definition clear_readonly_cache :: "world \<Rightarrow> world" where
  "clear_readonly_cache w =
     (let w1 = w\<lparr>LOCAL_CACHE := None, IS_READONLY := False, READONLY_REENTRY_COUNT := 0\<rparr>;
          w2 = (case READONLY_APP_CONTEXT w1 of
                  None \<Rightarrow> w1
                | Some c \<Rightarrow> if fs_is_in_readonly w1 c then fs_end_readonly_of c w1 else w1)
      in w2\<lparr>READONLY_APP_CONTEXT := None\<rparr>)"

definition assert_true_clear_cache_and_raise_if_not ::
    "bool \<Rightarrow> string \<Rightarrow> world \<Rightarrow> (error + unit) \<times> world" where
  "assert_true_clear_cache_and_raise_if_not value_to_assert msg w =
     (if \<not> value_to_assert then (Inl (AssertionError msg), clear_readonly_cache w)
      else (Inr (), w))"

definition fs_begin_readonly :: "world \<Rightarrow> world" where
  "fs_begin_readonly w =
     (let w1 = w\<lparr>READONLY_APP_CONTEXT := current_course w\<rparr>
      in case READONLY_APP_CONTEXT w1 of
           None \<Rightarrow> w1
         | Some c \<Rightarrow> fs_begin_readonly_of c w1)"


definition begin_readonly :: "world \<Rightarrow> (error + unit) \<times> world" where
  "begin_readonly w =
     (case assert_true_clear_cache_and_raise_if_not
             (READONLY_REENTRY_COUNT w \<ge> 0) ''Re-entry counter is < 0.'' w of
        (Inl e, w1) \<Rightarrow> (Inl e, w1)
      | (Inr u, w1) \<Rightarrow>
     (case assert_true_clear_cache_and_raise_if_not
             (is_same_app_context_if_set w1) ''Unable to switch app_context.'' w1 of
        (Inl e, w2) \<Rightarrow> (Inl e, w2)
      | (Inr u, w2) \<Rightarrow>
          let w3 = (if READONLY_REENTRY_COUNT w2 = 0
                    then fs_begin_readonly
                           (w2\<lparr>IS_READONLY := True, LOCAL_CACHE := Some (\<lambda>ns. None)\<rparr>)
                    else w2)
          in (Inr (), w3\<lparr>READONLY_REENTRY_COUNT := READONLY_REENTRY_COUNT w3 + 1\<rparr>)))"








section \<open>The memcache service\<close>

text \<open>
  Modelled from the spec: google.appengine.api.memcache is not among the sources.
  It is a remote key/value service, partitioned by namespace, with get, set,
  delete, incr and their multi-key variants; get_multi returns the found keys
  only; incr starts a missing key at initial_value. While the service is
  unavailable every call raises a transport failure. The service is subject to
  size limits, the ones that the constants MEMCACHE_MAX and MEMCACHE_MULTI_MAX
  of models.py record: a write of a value whose serialized size is above the
  per-item ceiling, or of a batch whose keys and serialized values together are
  above the per-batch ceiling, is refused with an error. Expiry is not modelled.
\<close>

definition memcache_get :: "string \<Rightarrow> string \<Rightarrow> world \<Rightarrow> (error + pyval) \<times> world" where
  "memcache_get key ns w =
     (if memcache_unavailable w then (Inl CacheBackendError, w)
      else (Inr (case memcache w (ns, key) of None \<Rightarrow> PNone | Some v \<Rightarrow> v), w))"

definition memcache_get_multi ::
    "string list \<Rightarrow> string \<Rightarrow> world \<Rightarrow> (error + (string \<times> pyval) list) \<times> world" where
  "memcache_get_multi keys ns w =
     (if memcache_unavailable w then (Inl CacheBackendError, w)
      else (Inr (List.map_filter (\<lambda>k. map_option (Pair k) (memcache w (ns, k)))
                   (remdups keys)), w))"

definition memcache_set ::
    "string \<Rightarrow> pyval \<Rightarrow> string \<Rightarrow> world \<Rightarrow> (error + unit) \<times> world" where
  "memcache_set key v ns w =
     (if memcache_unavailable w then (Inl CacheBackendError, w)
      else if serialized_size w v > MEMCACHE_MAX then (Inl ValueError, w)
      else (Inr (), w\<lparr>memcache := (memcache w)((ns, key) \<mapsto> v)\<rparr>))"

text \<open>Whether the service takes a batch: every value within the per-item ceiling
  and the whole batch within the per-batch ceiling.\<close>

definition batch_accepted :: "world \<Rightarrow> (string \<times> pyval) list \<Rightarrow> bool" where
  "batch_accepted w mapping =
     (list_all (\<lambda>(k, v). serialized_size w v \<le> MEMCACHE_MAX) mapping
      \<and> sum_list (map (\<lambda>(k, v). length k + serialized_size w v) mapping)
            \<le> MEMCACHE_MULTI_MAX)"

definition memcache_set_multi ::
    "(string \<times> pyval) list \<Rightarrow> string \<Rightarrow> world \<Rightarrow> (error + unit) \<times> world" where
  "memcache_set_multi mapping ns w =
     (if memcache_unavailable w then (Inl CacheBackendError, w)
      else if \<not> batch_accepted w mapping then (Inl ValueError, w)
      else (Inr (), w\<lparr>memcache :=
                        fold (\<lambda>(k, v) m. m((ns, k) \<mapsto> v)) mapping (memcache w)\<rparr>))"

definition memcache_delete :: "string \<Rightarrow> string \<Rightarrow> world \<Rightarrow> (error + unit) \<times> world" where
  "memcache_delete key ns w =
     (if memcache_unavailable w then (Inl CacheBackendError, w)
      else (Inr (), w\<lparr>memcache := (memcache w)((ns, key) := None)\<rparr>))"

definition memcache_delete_multi ::
    "string list \<Rightarrow> string \<Rightarrow> world \<Rightarrow> (error + unit) \<times> world" where
  "memcache_delete_multi key_list ns w =
     (if memcache_unavailable w then (Inl CacheBackendError, w)
      else (Inr (), w\<lparr>memcache :=
                        fold (\<lambda>k m. m((ns, k) := None)) key_list (memcache w)\<rparr>))"

definition memcache_incr ::
    "string \<Rightarrow> int \<Rightarrow> string \<Rightarrow> int \<Rightarrow> world \<Rightarrow> (error + unit) \<times> world" where
  "memcache_incr key delta ns initial_value w =
     (if memcache_unavailable w then (Inl CacheBackendError, w)
      else (case memcache w (ns, key) of
              None \<Rightarrow>
                (Inr (), w\<lparr>memcache := (memcache w)((ns, key) \<mapsto> PInt (initial_value + delta))\<rparr>)
            | Some (PInt n) \<Rightarrow>
                (Inr (), w\<lparr>memcache := (memcache w)((ns, key) \<mapsto> PInt (n + delta))\<rparr>)
            | Some v \<Rightarrow> (Inr (), w)))"

section \<open>MemcacheManager: the cache operations\<close>

text \<open>Source: MemcacheManager._local_cache_get. A failed \<open>assert\<close> raises AssertionError;
  \<open>.get\<close> on a \<open>_LOCAL_CACHE\<close> that is None raises AttributeError. Replacing an empty
  namespace dict by a new empty dict leaves the same value.\<close>

definition local_cache_get ::
    "string \<Rightarrow> string \<Rightarrow> world \<Rightarrow> (error + bool \<times> pyval) \<times> world" where
  "local_cache_get key namespace w =
     (if IS_READONLY w then
        if \<not> is_same_app_context_if_set w then (Inl (AssertionError []), w)
        else (case LOCAL_CACHE w of
                None \<Rightarrow> (Inl AttributeError, w)
              | Some lc \<Rightarrow>
                  let d = (case lc namespace of None \<Rightarrow> (\<lambda>k. None) | Some d \<Rightarrow> d);
                      w1 = w\<lparr>LOCAL_CACHE := Some (lc(namespace \<mapsto> d))\<rparr>
                  in (case d key of
                        Some v \<Rightarrow>
                          (Inr (True, v), w1\<lparr>CACHE_HIT_LOCAL := CACHE_HIT_LOCAL w1 + 1\<rparr>)
                      | None \<Rightarrow>
                          (Inr (False, PNone),
                           w1\<lparr>CACHE_MISS_LOCAL := CACHE_MISS_LOCAL w1 + 1\<rparr>)))
      else (Inr (False, PNone), w))"

text \<open>Source: MemcacheManager._local_cache_put.\<close>

definition local_cache_put ::
    "string \<Rightarrow> string \<Rightarrow> pyval \<Rightarrow> world \<Rightarrow> (error + unit) \<times> world" where
  "local_cache_put key namespace v w =
     (if IS_READONLY w then
        if \<not> is_same_app_context_if_set w then (Inl (AssertionError []), w)
        else (case LOCAL_CACHE w of
                None \<Rightarrow> (Inl AttributeError, w)
              | Some lc \<Rightarrow>
                  let d = (case lc namespace of None \<Rightarrow> (\<lambda>k. None) | Some d \<Rightarrow> d)
                  in (Inr (), w\<lparr>LOCAL_CACHE := Some (lc(namespace \<mapsto> d(key \<mapsto> v))),
                                CACHE_PUT_LOCAL := CACHE_PUT_LOCAL w + 1\<rparr>))
      else (Inr (), w))"

text \<open>The \<open>for key in keys\<close> loop of _local_cache_get_multi, \<open>vs\<close> being \<open>values\<close>.\<close>

fun local_cache_get_multi_loop ::
    "string list \<Rightarrow> string \<Rightarrow> pyval list \<Rightarrow> world \<Rightarrow> (error + bool \<times> pyval list) \<times> world" where
  "local_cache_get_multi_loop [] namespace vs w = (Inr (True, vs), w)"
| "local_cache_get_multi_loop (key # keys) namespace vs w =
     (case local_cache_get key namespace w of
        (Inl e, w1) \<Rightarrow> (Inl e, w1)
      | (Inr (is_cached, v), w1) \<Rightarrow>
          if \<not> is_cached then (Inr (False, []), w1)
          else local_cache_get_multi_loop keys namespace (vs @ [v]) w1)"

definition local_cache_get_multi ::
    "string list \<Rightarrow> string \<Rightarrow> world \<Rightarrow> (error + bool \<times> pyval list) \<times> world" where
  "local_cache_get_multi keys namespace w =
     (if IS_READONLY w then
        if \<not> is_same_app_context_if_set w then (Inl (AssertionError []), w)
        else local_cache_get_multi_loop keys namespace [] w
      else (Inr (False, []), w))"

fun local_cache_put_multi_loop ::
    "(string \<times> pyval) list \<Rightarrow> string \<Rightarrow> world \<Rightarrow> (error + unit) \<times> world" where
  "local_cache_put_multi_loop [] namespace w = (Inr (), w)"
| "local_cache_put_multi_loop ((key, v) # items) namespace w =
     (case local_cache_put key namespace v w of
        (Inl e, w1) \<Rightarrow> (Inl e, w1)
      | (Inr u, w1) \<Rightarrow> local_cache_put_multi_loop items namespace w1)"

definition local_cache_put_multi ::
    "(string \<times> pyval) list \<Rightarrow> string \<Rightarrow> world \<Rightarrow> (error + unit) \<times> world" where
  "local_cache_put_multi vals namespace w =
     (if IS_READONLY w then
        if \<not> is_same_app_context_if_set w then (Inl (AssertionError []), w)
        else local_cache_put_multi_loop vals namespace w
      else (Inr (), w))"

definition get_namespace :: "world \<Rightarrow> string" where
  "get_namespace w =
     (if current_namespace w \<noteq> [] then current_namespace w else DEFAULT_NAMESPACE_NAME w)"

text \<open>Source: MemcacheManager._get_namespace.\<close>

definition get_namespace' :: "string option \<Rightarrow> world \<Rightarrow> string" where
  "get_namespace' namespace w =
     (case namespace of Some n \<Rightarrow> n | None \<Rightarrow> get_namespace w)"

definition count_hit_or_miss :: "pyval \<Rightarrow> world \<Rightarrow> world" where
  "count_hit_or_miss v w =
     (if \<not> is_None v then w\<lparr>CACHE_HIT := CACHE_HIT w + 1\<rparr>
      else w\<lparr>CACHE_MISS := CACHE_MISS w + 1\<rparr>)"

definition MemcacheManager_get ::
    "string \<Rightarrow> string option \<Rightarrow> world \<Rightarrow> (error + pyval) \<times> world" where
  "MemcacheManager_get key namespace w =
     (if \<not> CAN_USE_MEMCACHE w then (Inr PNone, w)
      else
        let ns = get_namespace' namespace w
        in (case local_cache_get key ns w of
              (Inl e, w1) \<Rightarrow> (Inl e, w1)
            | (Inr (is_cached, v), w1) \<Rightarrow>
                if is_cached then (Inr v, w1)
                else (case memcache_get key ns w1 of
                        (Inl e, w2) \<Rightarrow> (Inl e, w2)
                      | (Inr v, w2) \<Rightarrow>
                          (case local_cache_put key ns v (count_hit_or_miss v w2) of
                             (Inl e, w3) \<Rightarrow> (Inl e, w3)
                           | (Inr u, w3) \<Rightarrow> (Inr v, w3)))))"

text \<open>
  What get_multi returns: the dict of memcache.get_multi (or the empty dict), or
  the list \<open>values\<close> of _local_cache_get_multi.
\<close>

datatype multi_result = MDict "(string \<times> pyval) list" | MList "pyval list"

definition MemcacheManager_get_multi ::
    "string list \<Rightarrow> string option \<Rightarrow> world \<Rightarrow> (error + multi_result) \<times> world" where
  "MemcacheManager_get_multi keys namespace w =
     (if \<not> CAN_USE_MEMCACHE w then (Inr (MDict []), w)
      else
        let ns = get_namespace' namespace w
        in (case local_cache_get_multi keys ns w of
              (Inl e, w1) \<Rightarrow> (Inl e, w1)
            | (Inr (is_cached, vs), w1) \<Rightarrow>
                if is_cached then (Inr (MList vs), w1)
                else (case memcache_get_multi keys ns w1 of
                        (Inl e, w2) \<Rightarrow> (Inl e, w2)
                      | (Inr vals, w2) \<Rightarrow>
                          (case local_cache_put_multi vals ns
                                  (fold (\<lambda>(k, v). count_hit_or_miss v) vals w2) of
                             (Inl e, w3) \<Rightarrow> (Inl e, w3)
                           | (Inr u, w3) \<Rightarrow> (Inr (MDict vals), w3)))))"

text \<open>
  set and set_multi run inside \<open>try: ... except:\<close>, which logs and returns None:
  an error raised inside ends the call normally, with the effects made so far.
\<close>

definition MemcacheManager_set ::
    "string \<Rightarrow> pyval \<Rightarrow> string option \<Rightarrow> world \<Rightarrow> (error + unit) \<times> world" where
  "MemcacheManager_set key v namespace w =
     (if CAN_USE_MEMCACHE w then
        if getsizeof w v > MEMCACHE_MAX
        then (Inr (), w\<lparr>CACHE_PUT_TOO_BIG := CACHE_PUT_TOO_BIG w + 1\<rparr>)
        else
          let w1 = w\<lparr>CACHE_PUT := CACHE_PUT w + 1\<rparr>;
              ns = get_namespace' namespace w1
          in (case memcache_set key v ns w1 of
                (Inl e, w2) \<Rightarrow> (Inr (), w2)
              | (Inr u, w2) \<Rightarrow>
                  (case local_cache_put key ns v w2 of
                     (Inl e, w3) \<Rightarrow> (Inr (), w3)
                   | (Inr u, w3) \<Rightarrow> (Inr (), w3)))
      else (Inr (), w))"

definition MemcacheManager_set_multi ::
    "(string \<times> pyval) list \<Rightarrow> string option \<Rightarrow> world \<Rightarrow> (error + unit) \<times> world" where
  "MemcacheManager_set_multi mapping namespace w =
     (if CAN_USE_MEMCACHE w then
        if mapping = [] then (Inr (), w)
        else if sum_list (map (\<lambda>(key, v). getsizeof_str w key + getsizeof w v) mapping)
                  > MEMCACHE_MULTI_MAX
        then (Inr (), w\<lparr>CACHE_PUT_TOO_BIG := CACHE_PUT_TOO_BIG w + 1\<rparr>)
        else
          let w1 = w\<lparr>CACHE_PUT := CACHE_PUT w + 1\<rparr>;
              ns = get_namespace' namespace w1
          in (case memcache_set_multi mapping ns w1 of
                (Inl e, w2) \<Rightarrow> (Inr (), w2)
              | (Inr u, w2) \<Rightarrow>
                  (case local_cache_put_multi mapping ns w2 of
                     (Inl e, w3) \<Rightarrow> (Inr (), w3)
                   | (Inr u, w3) \<Rightarrow> (Inr (), w3)))
      else (Inr (), w))"

definition MemcacheManager_delete ::
    "string \<Rightarrow> string option \<Rightarrow> world \<Rightarrow> (error + unit) \<times> world" where
  "MemcacheManager_delete key namespace w =
     (if IS_READONLY w then (Inl (AssertionError []), w)
      else if CAN_USE_MEMCACHE w then
        memcache_delete key (get_namespace' namespace w)
          (w\<lparr>CACHE_DELETE := CACHE_DELETE w + 1\<rparr>)
      else (Inr (), w))"

definition MemcacheManager_delete_multi ::
    "string list \<Rightarrow> string option \<Rightarrow> world \<Rightarrow> (error + unit) \<times> world" where
  "MemcacheManager_delete_multi key_list namespace w =
     (if IS_READONLY w then (Inl (AssertionError []), w)
      else if CAN_USE_MEMCACHE w then
        memcache_delete_multi key_list (get_namespace' namespace w)
          (w\<lparr>CACHE_DELETE := CACHE_DELETE w + length key_list\<rparr>)
      else (Inr (), w))"

definition MemcacheManager_incr ::
    "string \<Rightarrow> int \<Rightarrow> string option \<Rightarrow> world \<Rightarrow> (error + unit) \<times> world" where
  "MemcacheManager_incr key delta namespace w =
     (if CAN_USE_MEMCACHE w then
        memcache_incr key delta (get_namespace' namespace w) 0 w
      else (Inr (), w))"

section \<open>The datastore\<close>

text \<open>
  Modelled from the spec: google.appengine.ext.db is not among the sources. The
  backing store holds one JSON text per key of a kind and supports get by id or
  name, put (a record without a key gets the next numeric id), batched put,
  delete, and a scan of a kind from a cursor; a cursor is the number of records
  already passed, and running a query yields every record after its cursor.
  get_by_id accepts ints and get_by_key_name strings; a key name is a non-empty
  string. Failures of the store are not modelled.
\<close>

definition db_get :: "string \<Rightarrow> obj_id \<Rightarrow> world \<Rightarrow> entity option" where
  "db_get kind key w =
     map_option (\<lambda>d. \<lparr>entity_key = Some key, entity_data = d\<rparr>)
       (map_of (datastore w) (kind, key))"

definition entity_put :: "string \<Rightarrow> entity \<Rightarrow> world \<Rightarrow> obj_id \<times> world" where
  "entity_put kind e w =
     (case entity_key e of
        Some key \<Rightarrow>
          (key, w\<lparr>datastore := AList.update (kind, key) (entity_data e) (datastore w)\<rparr>)
      | None \<Rightarrow>
          (IdInt (next_auto_id w),
           w\<lparr>datastore := AList.update (kind, IdInt (next_auto_id w)) (entity_data e)
                             (datastore w),
             next_auto_id := next_auto_id w + 1\<rparr>))"

fun db_put :: "string \<Rightarrow> entity list \<Rightarrow> world \<Rightarrow> obj_id list \<times> world" where
  "db_put kind [] w = ([], w)"
| "db_put kind (e # es) w =
     (let (key, w1) = entity_put kind e w;
          (keys, w2) = db_put kind es w1
      in (key # keys, w2))"

definition entity_delete :: "string \<Rightarrow> entity \<Rightarrow> world \<Rightarrow> (error + unit) \<times> world" where
  "entity_delete kind e w =
     (case entity_key e of
        None \<Rightarrow> (Inl NotSavedError, w)
      | Some key \<Rightarrow> (Inr (), w\<lparr>datastore := AList.delete (kind, key) (datastore w)\<rparr>))"

definition kind_entities :: "string \<Rightarrow> world \<Rightarrow> entity list" where
  "kind_entities kind w =
     map (\<lambda>((k, i), d). \<lparr>entity_key = Some i, entity_data = d\<rparr>)
       (filter (\<lambda>((k, i), d). k = kind) (datastore w))"

definition query_run :: "string \<Rightarrow> nat \<Rightarrow> world \<Rightarrow> entity list" where
  "query_run kind cursor w = drop cursor (kind_entities kind w)"

definition count_query_run :: "world \<Rightarrow> world" where
  "count_query_run w = w\<lparr>query_runs := query_runs w + 1\<rparr>"

text \<open>\<open>key.id()\<close>: the numeric id of a key, None for a key with a name.\<close>

fun key_id :: "obj_id \<Rightarrow> obj_id option" where
  "key_id (IdInt n) = Some (IdInt n)"
| "key_id (IdStr s) = None"

section \<open>BaseJsonDao\<close>

datatype key_type = EntityKeyTypeId | EntityKeyTypeName

text \<open>
  A DAO class: the kind of its ENTITY, its ENTITY_KEY_TYPE and its
  POST_LOAD_HOOKS (None when the class does not have the attribute). A hook
  mutates the DTOs of the list it is given in place; it is modelled by the
  function from the list to the new states of its DTOs, in order.
\<close>

record dao =
  ENTITY_kind :: string
  ENTITY_KEY_TYPE :: key_type
  POST_LOAD_HOOKS :: "(dto list \<Rightarrow> dto list) list option"

definition then_do ::
    "(error + 'a) \<times> world \<Rightarrow> ('a \<Rightarrow> world \<Rightarrow> (error + 'b) \<times> world) \<Rightarrow> (error + 'b) \<times> world" where
  "then_do r f = (case r of (Inl e, w) \<Rightarrow> (Inl e, w) | (Inr x, w) \<Rightarrow> f x w)"

text \<open>\<open>'%s' % obj_id\<close> and \<open>int(key)\<close>, and the truth value of an identifier.\<close>

fun fmt_obj_id :: "world \<Rightarrow> obj_id \<Rightarrow> string" where
  "fmt_obj_id w (IdInt n) = str_of_int w n"
| "fmt_obj_id w (IdStr s) = s"

fun py_int :: "world \<Rightarrow> obj_id \<Rightarrow> int option" where
  "py_int w (IdInt n) = Some n"
| "py_int w (IdStr s) = int_of_str w s"

fun id_truthy :: "obj_id option \<Rightarrow> bool" where
  "id_truthy None = False"
| "id_truthy (Some (IdInt n)) = (n \<noteq> 0)"
| "id_truthy (Some (IdStr s)) = (s \<noteq> [])"

text \<open>Source: BaseJsonDao._memcache_key and _memcache_all_key.\<close>

definition memcache_key :: "world \<Rightarrow> dao \<Rightarrow> obj_id \<Rightarrow> string" where
  "memcache_key w cls obj_id =
     ''(entity:'' @ ENTITY_kind cls @ '':'' @ fmt_obj_id w obj_id @ '')''"

definition memcache_all_key :: "dao \<Rightarrow> string" where
  "memcache_all_key cls = ''(entity-get-all:'' @ ENTITY_kind cls @ '')''"

definition get_entity_by_key :: "dao \<Rightarrow> obj_id \<Rightarrow> world \<Rightarrow> error + entity option" where
  "get_entity_by_key cls key w =
     (case ENTITY_KEY_TYPE cls of
        EntityKeyTypeId \<Rightarrow>
          (case py_int w key of
             None \<Rightarrow> Inl ValueError
           | Some n \<Rightarrow> Inr (db_get (ENTITY_kind cls) (IdInt n) w))
      | EntityKeyTypeName \<Rightarrow>
          (case key of
             IdStr s \<Rightarrow> Inr (db_get (ENTITY_kind cls) (IdStr s) w)
           | IdInt n \<Rightarrow> Inl BadArgumentError))"

definition new_entity :: "dao \<Rightarrow> obj_id option \<Rightarrow> error + entity" where
  "new_entity cls key =
     (case ENTITY_KEY_TYPE cls of
        EntityKeyTypeId \<Rightarrow> Inr \<lparr>entity_key = None, entity_data = []\<rparr>
      | EntityKeyTypeName \<Rightarrow>
          (case key of
             None \<Rightarrow> Inr \<lparr>entity_key = None, entity_data = []\<rparr>
           | Some (IdStr s) \<Rightarrow>
               if s = [] then Inl BadKeyError
               else Inr \<lparr>entity_key = Some (IdStr s), entity_data = []\<rparr>
           | Some (IdInt n) \<Rightarrow> Inl BadKeyError))"

text \<open>\<open>cls.DTO(obj_id, transforms.loads(entity.data))\<close>; reading \<open>.data\<close> of a value
  that is not an entity raises AttributeError.\<close>

definition make_dto :: "world \<Rightarrow> obj_id option \<Rightarrow> entity \<Rightarrow> dto" where
  "make_dto w obj_id e = \<lparr>dto_id = obj_id, dto_dict = transforms_loads w (entity_data e)\<rparr>"

definition apply_hook :: "(dto list \<Rightarrow> dto list) \<Rightarrow> dto list \<Rightarrow> dto list" where
  "apply_hook hook dto_list =
     (let r = hook dto_list in take (length dto_list) r @ drop (length r) dto_list)"

text \<open>The loop of _maybe_apply_post_hooks; every call of a hook is logged with the
  hook's position in POST_LOAD_HOOKS and the list it was given.\<close>

fun run_hooks ::
    "nat \<Rightarrow> (dto list \<Rightarrow> dto list) list \<Rightarrow> dto list \<Rightarrow> world \<Rightarrow> dto list \<times> world" where
  "run_hooks n [] dto_list w = (dto_list, w)"
| "run_hooks n (hook # hooks) dto_list w =
     run_hooks (Suc n) hooks (apply_hook hook dto_list)
       (w\<lparr>hook_calls := hook_calls w @ [(n, dto_list)]\<rparr>)"

definition maybe_apply_post_hooks :: "dao \<Rightarrow> dto list \<Rightarrow> world \<Rightarrow> dto list \<times> world" where
  "maybe_apply_post_hooks cls dto_list w =
     (case POST_LOAD_HOOKS cls of
        None \<Rightarrow> (dto_list, w)
      | Some hooks \<Rightarrow> run_hooks 0 hooks dto_list w)"

text \<open>Source: BaseJsonDao._load_entity. It returns None, the entity read from the
  datastore, or whatever true value the cache held.\<close>

definition load_entity :: "dao \<Rightarrow> obj_id option \<Rightarrow> world \<Rightarrow> (error + pyval) \<times> world" where
  "load_entity cls obj_id w =
     (case obj_id of
        None \<Rightarrow> (Inr PNone, w)
      | Some i \<Rightarrow>
          if \<not> id_truthy obj_id then (Inr PNone, w)
          else
            then_do (MemcacheManager_get (memcache_key w cls i) None w) (\<lambda>entity w1.
              if eq_NO_OBJECT entity then (Inr PNone, w1)
              else if \<not> truthy entity then
                (case get_entity_by_key cls i w1 of
                   Inl e \<Rightarrow> (Inl e, w1)
                 | Inr None \<Rightarrow>
                     then_do (MemcacheManager_set (memcache_key w cls i) NO_OBJECT None w1)
                       (\<lambda>u w2. (Inr PNone, w2))
                 | Inr (Some e) \<Rightarrow>
                     then_do (MemcacheManager_set (memcache_key w cls i) (PEntity e) None w1)
                       (\<lambda>u w2. (Inr (PEntity e), w2)))
              else (Inr entity, w1)))"

definition BaseJsonDao_load ::
    "dao \<Rightarrow> obj_id option \<Rightarrow> world \<Rightarrow> (error + dto option) \<times> world" where
  "BaseJsonDao_load cls obj_id w =
     then_do (load_entity cls obj_id w) (\<lambda>entity w1.
       if truthy entity then
         (case entity of
            PEntity e \<Rightarrow>
              (case maybe_apply_post_hooks cls [make_dto w1 obj_id e] w1 of
                 (d # ds, w2) \<Rightarrow> (Inr (Some d), w2)
               | ([], w2) \<Rightarrow> (Inr (Some (make_dto w1 obj_id e)), w2))
          | v \<Rightarrow> (Inl AttributeError, w1))
       else (Inr None, w1))"

text \<open>\<open>memcache_key in memcache_entities\<close> and \<open>memcache_entities[memcache_key]\<close>, on
  the dict and on the list that get_multi may return: a string is in a list when
  an element is equal to it, and a list cannot be indexed by a string.\<close>

fun key_in :: "string \<Rightarrow> multi_result \<Rightarrow> bool" where
  "key_in k (MDict d) = (k \<in> set (map fst d))"
| "key_in k (MList vs) = (PStr k \<in> set vs)"

fun subscript :: "multi_result \<Rightarrow> string \<Rightarrow> error + pyval" where
  "subscript (MDict d) k = (case map_of d k of None \<Rightarrow> Inl KeyError | Some v \<Rightarrow> Inr v)"
| "subscript (MList vs) k = Inl TypeError"

text \<open>
  One entry of \<open>ret\<close> while bulk_load weaves: a DTO just built from a datastore
  entity, which is the same object as its entry in \<open>dtos_for_post_hooks\<close> and so
  changes when a hook mutates that list's DTOs, or a finished entry.
\<close>

datatype slot = Fresh dto | Done "dto option"

text \<open>The loop \<open>for obj_id, memcache_key in both_keys\<close> of bulk_load (\<open>mkey\<close> is
  \<open>memcache_key\<close>); \<open>ret\<close>,
  \<open>memcache_update\<close> (here \<open>memcache_upd\<close>) and \<open>dtos_for_post_hooks\<close> are its three accumulators.\<close>

fun weave ::
    "world \<Rightarrow> multi_result \<Rightarrow> (obj_id \<times> entity option) list \<Rightarrow> (obj_id \<times> string) list
     \<Rightarrow> slot list \<Rightarrow> (string \<times> pyval) list \<Rightarrow> dto list
     \<Rightarrow> error + slot list \<times> (string \<times> pyval) list \<times> dto list" where
  "weave w memcache_entities datastore_entities [] ret memcache_upd dtos_for_post_hooks =
     Inr (ret, memcache_upd, dtos_for_post_hooks)"
| "weave w memcache_entities datastore_entities ((obj_id, mkey) # both_keys)
       ret memcache_upd dtos_for_post_hooks =
     (case (case map_of datastore_entities obj_id of None \<Rightarrow> None | Some eo \<Rightarrow> eo) of
        Some e \<Rightarrow>
          weave w memcache_entities datastore_entities both_keys
            (ret @ [Fresh (make_dto w (Some obj_id) e)])
            (AList.update mkey (PEntity e) memcache_upd)
            (dtos_for_post_hooks @ [make_dto w (Some obj_id) e])
      | None \<Rightarrow>
          if \<not> key_in mkey memcache_entities then
            weave w memcache_entities datastore_entities both_keys
              (ret @ [Done None])
              (AList.update mkey NO_OBJECT memcache_upd)
              dtos_for_post_hooks
          else
            (case subscript memcache_entities mkey of
               Inl err \<Rightarrow> Inl err
             | Inr entity \<Rightarrow>
                 if eq_NO_OBJECT entity then
                   weave w memcache_entities datastore_entities both_keys
                     (ret @ [Done None]) memcache_upd dtos_for_post_hooks
                 else
                   (case entity of
                      PEntity e \<Rightarrow>
                        weave w memcache_entities datastore_entities both_keys
                          (ret @ [Done (Some (make_dto w (Some obj_id) e))])
                          memcache_upd dtos_for_post_hooks
                    | v \<Rightarrow> Inl AttributeError)))"

text \<open>\<open>ret\<close> as the caller sees it after the hooks have run on
  \<open>dtos_for_post_hooks\<close>, whose DTOs are now \<open>hooked\<close>.\<close>

fun ret_after_hooks :: "slot list \<Rightarrow> dto list \<Rightarrow> dto option list" where
  "ret_after_hooks [] hooked = []"
| "ret_after_hooks (Done d # ret) hooked = d # ret_after_hooks ret hooked"
| "ret_after_hooks (Fresh d # ret) [] = Some d # ret_after_hooks ret []"
| "ret_after_hooks (Fresh d # ret) (h # hooked) = Some h # ret_after_hooks ret hooked"

text \<open>\<open>dict(zip(datastore_keys, db.get([...])))\<close>.\<close>

definition fetch_datastore_entities ::
    "dao \<Rightarrow> obj_id list \<Rightarrow> world \<Rightarrow> (obj_id \<times> entity option) list" where
  "fetch_datastore_entities cls datastore_keys w =
     fold (\<lambda>(k, v). AList.update k v)
       (zip datastore_keys (map (\<lambda>obj_id. db_get (ENTITY_kind cls) obj_id w) datastore_keys))
       []"

definition BaseJsonDao_bulk_load ::
    "dao \<Rightarrow> obj_id list \<Rightarrow> world \<Rightarrow> (error + dto option list) \<times> world" where
  "BaseJsonDao_bulk_load cls obj_id_list w =
     (let memcache_keys = map (memcache_key w cls) obj_id_list
      in then_do (MemcacheManager_get_multi memcache_keys None w) (\<lambda>memcache_entities w1.
           let both_keys = zip obj_id_list memcache_keys;
               datastore_keys =
                 map fst (filter (\<lambda>(obj_id, k). \<not> key_in k memcache_entities) both_keys);
               datastore_entities =
                 (if datastore_keys \<noteq> [] then fetch_datastore_entities cls datastore_keys w1
                  else [])
           in (case weave w1 memcache_entities datastore_entities both_keys [] [] [] of
                 Inl err \<Rightarrow> (Inl err, w1)
               | Inr (ret, memcache_upd, dtos_for_post_hooks) \<Rightarrow>
                   (case maybe_apply_post_hooks cls dtos_for_post_hooks w1 of
                      (hooked, w2) \<Rightarrow>
                        if datastore_entities \<noteq> [] then
                          then_do (MemcacheManager_set_multi memcache_upd None w2)
                            (\<lambda>u w3. (Inr (ret_after_hooks ret hooked), w3))
                        else (Inr (ret_after_hooks ret hooked), w2)))))"

text \<open>Source: BaseJsonDao._create_if_necessary. Assigning \<open>.data\<close> needs an entity.\<close>

definition create_if_necessary :: "dao \<Rightarrow> dto \<Rightarrow> world \<Rightarrow> (error + entity) \<times> world" where
  "create_if_necessary cls d w =
     then_do (load_entity cls (dto_id d) w) (\<lambda>entity w1.
       if \<not> truthy entity then
         (case new_entity cls (dto_id d) of
            Inl err \<Rightarrow> (Inl err, w1)
          | Inr e \<Rightarrow> (Inr (e\<lparr>entity_data := transforms_dumps w1 (dto_dict d)\<rparr>), w1))
       else
         (case entity of
            PEntity e \<Rightarrow> (Inr (e\<lparr>entity_data := transforms_dumps w1 (dto_dict d)\<rparr>), w1)
          | v \<Rightarrow> (Inl AttributeError, w1)))"

definition BaseJsonDao_save :: "dao \<Rightarrow> dto \<Rightarrow> world \<Rightarrow> (error + obj_id) \<times> world" where
  "BaseJsonDao_save cls d w =
     then_do (create_if_necessary cls d w) (\<lambda>e w1.
       case entity_put (ENTITY_kind cls) e w1 of
         (key, w2) \<Rightarrow>
           then_do (MemcacheManager_delete (memcache_all_key cls) None w2) (\<lambda>u w3.
             then_do (MemcacheManager_set (memcache_key w3 cls key)
                        (PEntity (e\<lparr>entity_key := Some key\<rparr>)) None w3)
               (\<lambda>u w4. (Inr key, w4))))"

text \<open>The first loop of save_all.\<close>

fun create_all :: "dao \<Rightarrow> dto list \<Rightarrow> world \<Rightarrow> (error + entity list) \<times> world" where
  "create_all cls [] w = (Inr [], w)"
| "create_all cls (d # dtos) w =
     then_do (create_if_necessary cls d w) (\<lambda>e w1.
       then_do (create_all cls dtos w1) (\<lambda>es w2. (Inr (e # es), w2)))"

text \<open>The second loop of save_all, over \<open>zip(keys, entities)\<close>.\<close>

fun set_all ::
    "dao \<Rightarrow> (obj_id \<times> entity) list \<Rightarrow> world \<Rightarrow> (error + unit) \<times> world" where
  "set_all cls [] w = (Inr (), w)"
| "set_all cls ((key, e) # rest) w =
     then_do (MemcacheManager_set (memcache_key w cls key)
                (PEntity (e\<lparr>entity_key := Some key\<rparr>)) None w)
       (\<lambda>u w1. set_all cls rest w1)"

definition BaseJsonDao_save_all ::
    "dao \<Rightarrow> dto list \<Rightarrow> world \<Rightarrow> (error + obj_id option list) \<times> world" where
  "BaseJsonDao_save_all cls dtos w =
     then_do (create_all cls dtos w) (\<lambda>entities w1.
       case db_put (ENTITY_kind cls) entities w1 of
         (keys, w2) \<Rightarrow>
           then_do (MemcacheManager_delete (memcache_all_key cls) None w2) (\<lambda>u w3.
             then_do (set_all cls (zip keys entities) w3)
               (\<lambda>u w4. (Inr (map key_id keys), w4))))"

text \<open>Source: BaseJsonDao.delete. \<open>entity.delete()\<close> on None, or on a cached value
  that is not an entity, raises AttributeError.\<close>

definition BaseJsonDao_delete :: "dao \<Rightarrow> dto \<Rightarrow> world \<Rightarrow> (error + unit) \<times> world" where
  "BaseJsonDao_delete cls d w =
     then_do (load_entity cls (dto_id d) w) (\<lambda>entity w1.
       case entity of
         PEntity e \<Rightarrow>
           then_do (entity_delete (ENTITY_kind cls) e w1) (\<lambda>u w2.
             then_do (MemcacheManager_delete (memcache_all_key cls) None w2) (\<lambda>u w3.
               case entity_key e of
                 None \<Rightarrow> (Inl NotSavedError, w3)
               | Some key \<Rightarrow> MemcacheManager_delete (memcache_key w3 cls key) None w3))
       | v \<Rightarrow> (Inl AttributeError, w1))"

text \<open>The \<open>while any_records\<close> loop of get_all_iter, consumed to its end: each pass
  runs the query from \<open>prev_cursor\<close> and moves the cursor past what it yielded.\<close>

function get_all_iter_loop :: "dao \<Rightarrow> nat \<Rightarrow> dto list \<Rightarrow> world \<Rightarrow> dto list \<times> world" where
  "get_all_iter_loop cls prev_cursor acc w =
     (if query_run (ENTITY_kind cls) prev_cursor w = [] then (acc, count_query_run w)
      else get_all_iter_loop cls
             (prev_cursor + length (query_run (ENTITY_kind cls) prev_cursor w))
             (acc @ map (\<lambda>e. make_dto w (entity_key e) e)
                      (query_run (ENTITY_kind cls) prev_cursor w))
             (count_query_run w))"
  by pat_completeness auto
termination
  by (relation "measure (\<lambda>(cls, prev_cursor, acc, w).
         length (kind_entities (ENTITY_kind cls) w) - prev_cursor)")
     (auto simp: query_run_def kind_entities_def count_query_run_def)

declare get_all_iter_loop.simps [simp del]

definition get_all_iter :: "dao \<Rightarrow> world \<Rightarrow> dto list \<times> world" where
  "get_all_iter cls w = get_all_iter_loop cls 0 [] w"

definition get_all_mapped :: "dao \<Rightarrow> world \<Rightarrow> (error + pyval) \<times> world" where
  "get_all_mapped cls w =
     then_do (MemcacheManager_get (memcache_all_key cls) None w) (\<lambda>entities w1.
       if \<not> is_None entities \<and> \<not> eq_NO_OBJECT entities then (Inr entities, w1)
       else
         (case get_all_iter cls w1 of
            (dtos, w2) \<Rightarrow>
              let result = fold (\<lambda>d. AList.update (dto_id d) d) dtos [];
                  result_to_cache = (if result \<noteq> [] then PDict result else NO_OBJECT)
              in then_do (MemcacheManager_set (memcache_all_key cls) result_to_cache None w2)
                   (\<lambda>u w3. (Inr (PDict result), w3))))"

text \<open>\<open>.values()\<close> of what get_all_mapped returned.\<close>

fun py_values :: "pyval \<Rightarrow> error + dto list" where
  "py_values (PDict items) = Inr (map snd items)"
| "py_values NO_OBJECT = Inr []"
| "py_values v = Inl AttributeError"

definition BaseJsonDao_get_all :: "dao \<Rightarrow> world \<Rightarrow> (error + dto list) \<times> world" where
  "BaseJsonDao_get_all cls w =
     then_do (get_all_mapped cls w) (\<lambda>m w1.
       case py_values m of Inl err \<Rightarrow> (Inl err, w1) | Inr vs \<Rightarrow> (Inr vs, w1))"

section \<open>Sample processes and classes\<close>

text \<open>Decimal numerals, for \<open>'%s' % n\<close> and \<open>int(s)\<close> of the sample processes;
  \<open>int\<close> raises ValueError (here None) on anything but an optional minus sign
  and digits.\<close>

fun nat_digits :: "nat \<Rightarrow> string" where
  "nat_digits n =
     (if n < 10 then [''0123456789'' ! n]
      else nat_digits (n div 10) @ [''0123456789'' ! (n mod 10)])"

declare nat_digits.simps [simp del]

definition decimal :: "int \<Rightarrow> string" where
  "decimal n = (if n < 0 then CHR ''-'' # nat_digits (nat (- n)) else nat_digits (nat n))"

definition digits_value :: "string \<Rightarrow> int option" where
  "digits_value s =
     (if s = [] then None
      else fold (\<lambda>c acc.
                   case (acc, map_of (zip ''0123456789'' [0, 1, 2, 3, 4, 5, 6, 7, 8, 9]) c) of
                     (Some a, Some d) \<Rightarrow> Some (10 * a + d)
                   | other \<Rightarrow> None) s (Some 0))"

definition parse_int :: "string \<Rightarrow> int option" where
  "parse_int s =
     (case s of
        [] \<Rightarrow> None
      | c # cs \<Rightarrow> if c = CHR ''-'' then map_option uminus (digits_value cs)
                 else digits_value s)"

text \<open>
  The DTOs for which _load_entity yields no entity: the id is unset or false (0,
  the empty string); or the cache read of the single-record key yields a value
  equal to the sentinel; or it yields another false value (None: the key is not
  cached, or caching is disabled) and the datastore has no record for the id.
\<close>

definition unloadable :: "dao \<Rightarrow> dto \<Rightarrow> world \<Rightarrow> bool" where
  "unloadable cls d w =
     (case dto_id d of
        None \<Rightarrow> True
      | Some i \<Rightarrow>
          \<not> id_truthy (Some i)
          \<or> (case MemcacheManager_get (memcache_key w cls i) None w of
                (Inl err, w1) \<Rightarrow> False
              | (Inr v, w1) \<Rightarrow>
                  eq_NO_OBJECT v \<or> (\<not> truthy v \<and> get_entity_by_key cls i w1 = Inr None)))"

text \<open>What get, get_multi, set and set_multi never change: everything but the
  local map, the memcache service's contents and the put, hit and miss counters.\<close>

definition cache_frame :: "world \<Rightarrow> world \<Rightarrow> bool" where
  "cache_frame w w' =
     (IS_READONLY w' = IS_READONLY w
      \<and> READONLY_REENTRY_COUNT w' = READONLY_REENTRY_COUNT w
      \<and> READONLY_APP_CONTEXT w' = READONLY_APP_CONTEXT w
      \<and> CAN_USE_MEMCACHE w' = CAN_USE_MEMCACHE w
      \<and> CACHE_DELETE w' = CACHE_DELETE w
      \<and> current_course w' = current_course w
      \<and> current_namespace w' = current_namespace w
      \<and> DEFAULT_NAMESPACE_NAME w' = DEFAULT_NAMESPACE_NAME w
      \<and> memcache_unavailable w' = memcache_unavailable w
      \<and> datastore w' = datastore w
      \<and> next_auto_id w' = next_auto_id w
      \<and> query_runs w' = query_runs w
      \<and> hook_calls w' = hook_calls w
      \<and> getsizeof w' = getsizeof w
      \<and> getsizeof_str w' = getsizeof_str w
      \<and> serialized_size w' = serialized_size w
      \<and> int_of_str w' = int_of_str w
      \<and> str_of_int w' = str_of_int w
      \<and> transforms_loads w' = transforms_loads w
      \<and> transforms_dumps w' = transforms_dumps w)"

text \<open>The entries that _maybe_apply_post_hooks adds to the log of hook calls when it
  is given \<open>dto_list\<close>: one per hook, in the order of POST_LOAD_HOOKS, each hook
  receiving the DTOs as the hooks before it left them.\<close>

fun hook_log :: "nat \<Rightarrow> (dto list \<Rightarrow> dto list) list \<Rightarrow> dto list \<Rightarrow> (nat \<times> dto list) list" where
  "hook_log n [] dto_list = []"
| "hook_log n (hook # hooks) dto_list =
     (n, dto_list) # hook_log (Suc n) hooks (apply_hook hook dto_list)"

text \<open>The DTOs that bulk_load builds from datastore entities, in the order of
  \<open>obj_id_list\<close>: one for every id whose key is not in \<open>memcache_entities\<close> and
  which the datastore holds.\<close>

definition store_loaded_dtos ::
    "dao \<Rightarrow> world \<Rightarrow> multi_result \<Rightarrow> obj_id list \<Rightarrow> dto list" where
  "store_loaded_dtos cls w me ids =
     List.map_filter
       (\<lambda>i. if key_in (memcache_key w cls i) me then None
            else map_option (make_dto w (Some i)) (db_get (ENTITY_kind cls) i w))
       ids"

text \<open>The single-record cache entry of an id as bulk_load can see it outside a
  snapshot: what the memcache service holds under the id's key in the current
  namespace, and nothing when caching is disabled. \<open>is_entity\<close> tells the values
  that have a \<open>.data\<close>.\<close>

definition cached_entry :: "dao \<Rightarrow> obj_id \<Rightarrow> world \<Rightarrow> pyval option" where
  "cached_entry cls i w =
     (if CAN_USE_MEMCACHE w then memcache w (get_namespace w, memcache_key w cls i)
      else None)"

fun is_entity :: "pyval \<Rightarrow> bool" where
  "is_entity (PEntity e) = True"
| "is_entity v = False"

text \<open>The entry of \<open>ret\<close> and the change of \<open>memcache_update\<close> that one pass of
  bulk_load's loop makes for the id \<open>i\<close>, when every cached value is an entity or
  equal to the sentinel.\<close>

definition bulk_slot :: "world \<Rightarrow> dao \<Rightarrow> multi_result \<Rightarrow> obj_id \<Rightarrow> slot" where
  "bulk_slot w cls me i =
     (if key_in (memcache_key w cls i) me then
        (case subscript me (memcache_key w cls i) of
           Inr (PEntity e) \<Rightarrow> Done (Some (make_dto w (Some i) e))
         | other \<Rightarrow> Done None)
      else
        (case db_get (ENTITY_kind cls) i w of
           Some e \<Rightarrow> Fresh (make_dto w (Some i) e)
         | None \<Rightarrow> Done None))"

definition bulk_step ::
    "world \<Rightarrow> dao \<Rightarrow> multi_result \<Rightarrow> obj_id \<Rightarrow> (string \<times> pyval) list \<Rightarrow> (string \<times> pyval) list" where
  "bulk_step w cls me i upd =
     (if key_in (memcache_key w cls i) me then upd
      else AList.update (memcache_key w cls i)
             (case db_get (ENTITY_kind cls) i w of Some e \<Rightarrow> PEntity e | None \<Rightarrow> NO_OBJECT)
             upd)"

text \<open>Sizes for the sample processes. \<open>shallow_size\<close> is what \<open>sys.getsizeof\<close> gives:
  the object's own footprint, which for an entity or a dict does not grow with
  the data it holds. \<open>pickled_size\<close> is the serialized size, which does.\<close>

fun shallow_size :: "pyval \<Rightarrow> nat" where
  "shallow_size PNone = 16"
| "shallow_size NO_OBJECT = 280"
| "shallow_size (PDict items) = 280 + 24 * length items"
| "shallow_size (PEntity e) = 64"
| "shallow_size (PInt n) = 24"
| "shallow_size (PStr s) = 37 + length s"

fun pickled_size :: "pyval \<Rightarrow> nat" where
  "pickled_size PNone = 4"
| "pickled_size NO_OBJECT = 6"
| "pickled_size (PDict items) =
     6 + sum_list (map (\<lambda>(i, d). 40 + sum_list (map (\<lambda>(k, v). 8 + length k + length v)
                                                 (dto_dict d))) items)"
| "pickled_size (PEntity e) = 100 + length (entity_data e)"
| "pickled_size (PInt n) = 10"
| "pickled_size (PStr s) = 10 + length s"

text \<open>A process as it starts: nothing cached, nothing stored, caching enabled.\<close>

definition world0 :: world where
  "world0 =
     \<lparr>LOCAL_CACHE = None, IS_READONLY = False, READONLY_REENTRY_COUNT = 0,
      READONLY_APP_CONTEXT = None, CAN_USE_MEMCACHE = True,
      CACHE_PUT = 0, CACHE_PUT_TOO_BIG = 0, CACHE_HIT = 0, CACHE_MISS = 0,
      CACHE_DELETE = 0, CACHE_PUT_LOCAL = 0, CACHE_HIT_LOCAL = 0, CACHE_MISS_LOCAL = 0,
      current_course = None, fs_is_in_readonly = (\<lambda>c. False),
      current_namespace = [], DEFAULT_NAMESPACE_NAME = ''ns_default'',
      memcache = (\<lambda>k. None), memcache_unavailable = False,
      datastore = [], next_auto_id = 1, query_runs = 0, hook_calls = [],
      getsizeof = shallow_size, getsizeof_str = (\<lambda>s. 37 + length s),
      serialized_size = pickled_size,
      int_of_str = parse_int, str_of_int = decimal,
      transforms_loads = (\<lambda>s. [(''data'', s)]),
      transforms_dumps = (\<lambda>j. concat (map snd j))\<rparr>"

text \<open>The same process while the memcache service is unavailable.\<close>

definition world_down :: world where
  "world_down = world0\<lparr>memcache_unavailable := True\<rparr>"

text \<open>An entity whose JSON text alone is longer than the per-item ceiling.\<close>

definition big_entity :: entity where
  "big_entity =
     \<lparr>entity_key = Some (IdInt 7),
      entity_data = replicate (MEMCACHE_MAX + 1) (CHR ''x'')\<rparr>"

text \<open>A read-only snapshot that holds the key \<open>a\<close>: begin_readonly, then set.\<close>

definition world_snapshot_a :: world where
  "world_snapshot_a =
     snd (MemcacheManager_set ''a'' (PInt 1) None (snd (begin_readonly world0)))"

text \<open>Two DAO classes of the kind \<open>Q\<close>, one per key strategy, without hooks; a
  DTO with a name and one without an id.\<close>

definition dao_id :: dao where
  "dao_id = \<lparr>ENTITY_kind = ''Q'', ENTITY_KEY_TYPE = EntityKeyTypeId, POST_LOAD_HOOKS = None\<rparr>"

definition dao_name :: dao where
  "dao_name =
     \<lparr>ENTITY_kind = ''Q'', ENTITY_KEY_TYPE = EntityKeyTypeName, POST_LOAD_HOOKS = None\<rparr>"

definition dto_abc :: dto where
  "dto_abc = \<lparr>dto_id = Some (IdStr ''abc''), dto_dict = [(''x'', ''1'')]\<rparr>"

text \<open>The entity and the DTO of the record 7, and a process whose datastore is empty
  while its memcache service still holds that entity under every key.\<close>

definition entity7 :: entity where
  "entity7 = \<lparr>entity_key = Some (IdInt 7), entity_data = ''seven''\<rparr>"

definition world_stale :: world where
  "world_stale = world0\<lparr>memcache := (\<lambda>k. Some (PEntity entity7))\<rparr>"

definition dto7 :: dto where
  "dto7 = \<lparr>dto_id = Some (IdInt 7), dto_dict = [(''data'', ''seven'')]\<rparr>"

text \<open>A hook that adds a language tag to every DTO it is given, a DAO class of the
  kind \<open>Q\<close> with this one hook, and a process whose datastore holds the record 7.\<close>

definition add_lang :: "dto list \<Rightarrow> dto list" where
  "add_lang dto_list = map (\<lambda>d. d\<lparr>dto_dict := (''lang'', ''fr'') # dto_dict d\<rparr>) dto_list"

definition dao_hooked :: dao where
  "dao_hooked =
     \<lparr>ENTITY_kind = ''Q'', ENTITY_KEY_TYPE = EntityKeyTypeId,
      POST_LOAD_HOOKS = Some [add_lang]\<rparr>"

definition world_seven :: world where
  "world_seven = world0\<lparr>datastore := [((''Q'', IdInt 7), ''seven'')], next_auto_id := 8\<rparr>"

text \<open>A process whose datastore holds the record 7 while its memcache service holds
  the sentinel under every key, and a process with caching disabled.\<close>

definition world_negative :: world where
  "world_negative = world_seven\<lparr>memcache := (\<lambda>k. Some NO_OBJECT)\<rparr>"

definition world_nocache :: world where
  "world_nocache = world0\<lparr>CAN_USE_MEMCACHE := False\<rparr>"

text \<open>A process whose datastore holds the record 7 and whose memcache service holds,
  under the single-record key of that record only, an empty dict that is not the
  sentinel object.\<close>

definition world_empty_dict :: world where
  "world_empty_dict =
     world_seven\<lparr>memcache := (\<lambda>k. if k = (''ns_default'', ''(entity:Q:7)'')
                                      then Some (PDict []) else None)\<rparr>"

text \<open>A process with an empty datastore whose memcache service holds, under the
  aggregate key of the kind \<open>Q\<close> only, a mapping with the one record 3.\<close>

definition dto3 :: dto where
  "dto3 = \<lparr>dto_id = Some (IdInt 3), dto_dict = [(''data'', ''three'')]\<rparr>"

definition world_aggregate :: world where
  "world_aggregate =
     world0\<lparr>memcache := (\<lambda>k. if k = (''ns_default'', ''(entity-get-all:Q)'')
                                 then Some (PDict [(Some (IdInt 3), dto3)]) else None)\<rparr>"

text \<open>
  What bulk_load does with an id list outside a snapshot, read off the store and
  the cache: \<open>fresh_dtos\<close> are the DTOs it builds from datastore entities, one
  for every id that is not cached and that the datastore holds, in the order of
  the id list; \<open>hooked_dtos\<close> are the DTOs of a list as the hooks of
  POST_LOAD_HOOKS leave them; \<open>bulk_memcache_update\<close> is the batch it hands to
  set_multi, with the entity or the sentinel for every id that is not cached.
  \<open>is_fresh\<close> tells the entries of \<open>ret\<close> that are also in
  \<open>dtos_for_post_hooks\<close>.
\<close>

fun is_fresh :: "slot \<Rightarrow> bool" where
  "is_fresh (Fresh d) = True"
| "is_fresh (Done d) = False"

definition fresh_dtos :: "dao \<Rightarrow> world \<Rightarrow> obj_id list \<Rightarrow> dto list" where
  "fresh_dtos cls w ids =
     List.map_filter
       (\<lambda>i. if cached_entry cls i w \<noteq> None then None
            else map_option (make_dto w (Some i)) (db_get (ENTITY_kind cls) i w))
       ids"

definition hooked_dtos :: "dao \<Rightarrow> dto list \<Rightarrow> dto list" where
  "hooked_dtos cls dto_list =
     (case POST_LOAD_HOOKS cls of
        None \<Rightarrow> dto_list
      | Some hooks \<Rightarrow> fold apply_hook hooks dto_list)"

definition bulk_memcache_update :: "dao \<Rightarrow> world \<Rightarrow> obj_id list \<Rightarrow> (string \<times> pyval) list" where
  "bulk_memcache_update cls w ids =
     fold (\<lambda>i upd.
             if cached_entry cls i w \<noteq> None then upd
             else AList.update (memcache_key w cls i)
                    (case db_get (ENTITY_kind cls) i w of
                       Some e \<Rightarrow> PEntity e | None \<Rightarrow> NO_OBJECT)
                    upd)
       ids []"

text \<open>A process whose datastore holds the records 7 and 9, and whose memcache
  service holds the entity of the record 9 under its single-record key and the
  sentinel under the single-record key of the id 5.\<close>

definition entity9 :: entity where
  "entity9 = \<lparr>entity_key = Some (IdInt 9), entity_data = ''nine''\<rparr>"

definition world_mixed :: world where
  "world_mixed =
     world0\<lparr>datastore := [((''Q'', IdInt 7), ''seven''), ((''Q'', IdInt 9), ''nine'')],
            next_auto_id := 10,
            memcache := (\<lambda>k. if k = (''ns_default'', ''(entity:Q:9)'') then Some (PEntity entity9)
                              else if k = (''ns_default'', ''(entity:Q:5)'') then Some NO_OBJECT
                              else None)\<rparr>"

section \<open>The snapshot session\<close>















section \<open>Cache writes\<close>

lemma MemcacheManager_set_returns: "fst (MemcacheManager_set key v namespace w) = Inr ()"
  by (simp add: MemcacheManager_set_def Let_def split: prod.splits sum.splits)

lemma MemcacheManager_set_multi_returns:
  "fst (MemcacheManager_set_multi mapping namespace w) = Inr ()"
  by (simp add: MemcacheManager_set_multi_def Let_def split: prod.splits sum.splits)

lemma MemcacheManager_set_down:
  "memcache_unavailable w \<Longrightarrow>
     memcache (snd (MemcacheManager_set key v namespace w)) = memcache w"
  by (simp add: MemcacheManager_set_def Let_def memcache_set_def)

lemma MemcacheManager_set_multi_down:
  "memcache_unavailable w \<Longrightarrow>
     memcache (snd (MemcacheManager_set_multi mapping namespace w)) = memcache w"
  by (simp add: MemcacheManager_set_multi_def Let_def memcache_set_multi_def)

text \<open>
  C5, as stated, fails: with the memcache service unavailable, delete raises the
  transport failure to its caller.
\<close>

theorem delete_surfaces_transport_failure:
  "memcache_unavailable world_down
   \<and> fst (MemcacheManager_delete ''k'' None world_down) = Inl CacheBackendError"
  by (simp add: world_down_def world0_def MemcacheManager_delete_def memcache_delete_def)

text \<open>
  C5, amended. set and set_multi return normally in every state, and leave the
  memcache service's contents as they were when the service is unavailable.
  delete, delete_multi and incr have no handler: with caching enabled (and, for
  the two deletes, no read-only snapshot active) a transport failure of the
  service is raised to the caller.
\<close>

theorem cache_write_transport_failure:
  "fst (MemcacheManager_set key v namespace w) = Inr ()
   \<and> fst (MemcacheManager_set_multi mapping namespace w) = Inr ()
   \<and> (memcache_unavailable w \<longrightarrow>
        memcache (snd (MemcacheManager_set key v namespace w)) = memcache w
        \<and> memcache (snd (MemcacheManager_set_multi mapping namespace w)) = memcache w)
   \<and> (memcache_unavailable w \<and> CAN_USE_MEMCACHE w \<and> \<not> IS_READONLY w \<longrightarrow>
        fst (MemcacheManager_delete key namespace w) = Inl CacheBackendError
        \<and> fst (MemcacheManager_delete_multi key_list namespace w) = Inl CacheBackendError)
   \<and> (memcache_unavailable w \<and> CAN_USE_MEMCACHE w \<longrightarrow>
        fst (MemcacheManager_incr key delta namespace w) = Inl CacheBackendError)"
  by (simp add: MemcacheManager_set_returns MemcacheManager_set_multi_returns
        MemcacheManager_set_down MemcacheManager_set_multi_down
        MemcacheManager_delete_def MemcacheManager_delete_multi_def
        MemcacheManager_incr_def memcache_delete_def memcache_delete_multi_def
        memcache_incr_def)

theorem cache_write_transport_failure_witness:
  "memcache_unavailable world_down \<and> CAN_USE_MEMCACHE world_down
   \<and> \<not> IS_READONLY world_down
   \<and> fst (MemcacheManager_set ''k'' (PInt 1) None world_down) = Inr ()
   \<and> fst (MemcacheManager_set_multi [(''k'', PInt 1)] None world_down) = Inr ()
   \<and> memcache (snd (MemcacheManager_set ''k'' (PInt 1) None world_down))
       = memcache world_down
   \<and> memcache (snd (MemcacheManager_set_multi [(''k'', PInt 1)] None world_down))
       = memcache world_down
   \<and> fst (MemcacheManager_delete ''k'' None world_down) = Inl CacheBackendError
   \<and> fst (MemcacheManager_delete_multi [''k''] None world_down) = Inl CacheBackendError
   \<and> fst (MemcacheManager_incr ''k'' 1 None world_down) = Inl CacheBackendError"
proof -
  have h: "memcache_unavailable world_down" "CAN_USE_MEMCACHE world_down"
    "\<not> IS_READONLY world_down"
    by (simp_all add: world_down_def world0_def)
  show ?thesis
    using h cache_write_transport_failure
      [of "''k''" "PInt 1" None world_down "[(''k'', PInt 1)]" "[''k'']" 1]
    by blast
qed

section \<open>get_multi under a read-only snapshot\<close>

text \<open>
  C7. In a read-only snapshot whose local map holds the key \<open>a\<close>, get_multi of
  that key returns the list of the values, not a mapping from key to value.
\<close>

theorem get_multi_returns_list_in_snapshot:
  "IS_READONLY world_snapshot_a
   \<and> fst (MemcacheManager_get_multi [''a''] None world_snapshot_a) = Inr (MList [PInt 1])"
  by (simp add: world_snapshot_a_def world0_def begin_readonly_def
        assert_true_clear_cache_and_raise_if_not_def is_same_app_context_if_set_def
        fs_begin_readonly_def Let_def MemcacheManager_set_def MEMCACHE_MAX_def
        get_namespace'_def get_namespace_def memcache_set_def local_cache_put_def
        MemcacheManager_get_multi_def local_cache_get_multi_def local_cache_get_def)

section \<open>Evaluating the sample processes\<close>

lemmas cache_defs =
  MemcacheManager_get_def MemcacheManager_set_def MemcacheManager_delete_def
  MemcacheManager_get_multi_def MemcacheManager_set_multi_def
  local_cache_get_def local_cache_put_def local_cache_get_multi_def
  local_cache_put_multi_def memcache_get_def memcache_set_def memcache_delete_def
  memcache_get_multi_def memcache_set_multi_def get_namespace'_def get_namespace_def
  count_hit_or_miss_def MEMCACHE_MAX_def MEMCACHE_MULTI_MAX_def

lemmas dao_defs =
  then_do_def load_entity_def create_if_necessary_def new_entity_def
  get_entity_by_key_def db_get_def entity_put_def entity_delete_def memcache_key_def
  memcache_all_key_def make_dto_def

section \<open>save_all and the key strategies\<close>

text \<open>
  C9. Under the string-name strategy save_all of one DTO named \<open>abc\<close> returns the
  list of one None, where save of the same DTO returns the name \<open>abc\<close>.
\<close>

theorem save_all_returns_none_for_names:
  "fst (BaseJsonDao_save_all dao_name [dto_abc] world0) = Inr [None]
   \<and> fst (BaseJsonDao_save dao_name dto_abc world0) = Inr (IdStr ''abc'')"
  by (simp add: BaseJsonDao_save_all_def BaseJsonDao_save_def dao_name_def dto_abc_def
        world0_def cache_defs dao_defs Let_def)

section \<open>get_all on an empty kind\<close>

text \<open>
  C3. With caching enabled and nothing stored, the first get_all scans the
  datastore (one query run), caches the sentinel and returns no DTOs; the second
  get_all, with no write in between, finds the sentinel and scans again.
\<close>

theorem get_all_rescans_empty_kind:
  "fst (BaseJsonDao_get_all dao_id world0) = Inr []
   \<and> query_runs (snd (BaseJsonDao_get_all dao_id world0)) = 1
   \<and> memcache (snd (BaseJsonDao_get_all dao_id world0))
        (''ns_default'', memcache_all_key dao_id) = Some NO_OBJECT
   \<and> fst (BaseJsonDao_get_all dao_id (snd (BaseJsonDao_get_all dao_id world0))) = Inr []
   \<and> query_runs (snd (BaseJsonDao_get_all dao_id (snd (BaseJsonDao_get_all dao_id world0))))
        = 2"
  by (simp add: BaseJsonDao_get_all_def get_all_mapped_def get_all_iter_def
        get_all_iter_loop.simps query_run_def kind_entities_def count_query_run_def
        dao_id_def world0_def cache_defs dao_defs Let_def)

lemma query_runs_local_cache_put:
  "query_runs (snd (local_cache_put key ns v w)) = query_runs w"
  by (simp add: local_cache_put_def Let_def split: option.splits)

lemma query_runs_set:
  "query_runs (snd (MemcacheManager_set key v namespace w)) = query_runs w"
  by (simp add: MemcacheManager_set_def Let_def memcache_set_def local_cache_put_def
        split: option.splits prod.splits sum.splits)

lemma get_all_iter_loop_runs:
  "query_runs (snd (get_all_iter_loop cls c acc w)) > query_runs w"
proof (induction cls c acc w rule: get_all_iter_loop.induct)
  case (1 cls prev_cursor acc w)
  show ?case
  proof (cases "query_run (ENTITY_kind cls) prev_cursor w = []")
    case True
    then show ?thesis
      by (subst get_all_iter_loop.simps) (simp add: count_query_run_def)
  next
    case False
    from "1.IH" [OF False] False show ?thesis
      by (subst get_all_iter_loop.simps) (simp add: count_query_run_def)
  qed
qed

lemma load_entity_eq_sentinel:
  assumes "id_truthy (Some i)"
      and "MemcacheManager_get (memcache_key w cls i) None w = (Inr v, w1)"
      and "eq_NO_OBJECT v"
  shows "load_entity cls (Some i) w = (Inr PNone, w1)"
  using assms by (simp add: load_entity_def then_do_def)

section \<open>The sentinel\<close>

lemma then_do_simps:
  "then_do (Inr x, w) f = f x w"
  "then_do (Inl e, w) f = (Inl e, w)"
  by (simp_all add: then_do_def)

lemma then_do_set:
  "then_do (MemcacheManager_set key v namespace w) f
     = f () (snd (MemcacheManager_set key v namespace w))"
  using MemcacheManager_set_returns [of key v namespace w]
  by (cases "MemcacheManager_set key v namespace w") (simp add: then_do_def)

lemma get_all_mapped_eq_sentinel:
  assumes "MemcacheManager_get (memcache_all_key cls) None w = (Inr v, w2)"
      and "eq_NO_OBJECT v"
  shows "query_runs (snd (get_all_mapped cls w)) > query_runs w2"
proof -
  obtain dtos w3 where it: "get_all_iter_loop cls 0 [] w2 = (dtos, w3)"
    by (cases "get_all_iter_loop cls 0 [] w2")
  have "query_runs w3 > query_runs w2"
    using get_all_iter_loop_runs [of w2 cls 0 "[]"] it by simp
  moreover have "query_runs (snd (get_all_mapped cls w)) = query_runs w3"
    using assms it
    by (simp add: get_all_mapped_def then_do_set then_do_simps get_all_iter_def Let_def
          query_runs_set)
  ultimately show ?thesis by simp
qed

text \<open>
  C1, amended. _load_entity compares the value it reads from the cache with the
  sentinel by structural equality (\<open>NO_OBJECT == entity\<close>). Whenever the cache read
  of the single-record key yields a value equal to an empty dict, the sentinel
  object or any other empty dict, _load_entity returns None straight after that
  read, and load returns None, whatever the datastore holds.
\<close>

theorem sentinel_compared_by_equality:
  assumes "id_truthy (Some i)"
      and "MemcacheManager_get (memcache_key w cls i) None w = (Inr v, w1)"
      and "eq_NO_OBJECT v"
  shows "load_entity cls (Some i) w = (Inr PNone, w1)
       \<and> BaseJsonDao_load cls (Some i) w = (Inr None, w1)"
  using assms by (simp add: load_entity_eq_sentinel BaseJsonDao_load_def then_do_simps)

lemma world_empty_dict_get:
  "MemcacheManager_get (memcache_key world_empty_dict dao_id (IdInt 7)) None world_empty_dict
     = (Inr (PDict []), world_empty_dict\<lparr>CACHE_HIT := 1\<rparr>)"
  by (simp add: world_empty_dict_def world_seven_def world0_def dao_id_def cache_defs
        memcache_key_def decimal_def nat_digits.simps Let_def)

theorem sentinel_compared_by_equality_witness:
  "id_truthy (Some (IdInt 7)) \<and> eq_NO_OBJECT (PDict [])
   \<and> MemcacheManager_get (memcache_key world_empty_dict dao_id (IdInt 7)) None world_empty_dict
       = (Inr (PDict []), world_empty_dict\<lparr>CACHE_HIT := 1\<rparr>)
   \<and> load_entity dao_id (Some (IdInt 7)) world_empty_dict
       = (Inr PNone, world_empty_dict\<lparr>CACHE_HIT := 1\<rparr>)
   \<and> BaseJsonDao_load dao_id (Some (IdInt 7)) world_empty_dict
       = (Inr None, world_empty_dict\<lparr>CACHE_HIT := 1\<rparr>)"
proof -
  have h: "id_truthy (Some (IdInt 7))" "eq_NO_OBJECT (PDict [])" by simp_all
  show ?thesis
    using h sentinel_compared_by_equality [OF h(1) world_empty_dict_get h(2)]
      world_empty_dict_get
    by simp
qed

text \<open>
  C1, as stated, fails: an empty dict that is not the sentinel object, cached
  under the single-record key of the record 7 and under no other key, is taken
  for "confirmed absent", although the datastore holds the record.
\<close>

theorem empty_dict_taken_for_sentinel:
  "PDict [] \<noteq> NO_OBJECT
   \<and> memcache world_empty_dict (''ns_default'', memcache_key world_empty_dict dao_id (IdInt 7))
        = Some (PDict [])
   \<and> memcache world_empty_dict (''ns_default'', memcache_all_key dao_id) = None
   \<and> db_get ''Q'' (IdInt 7) world_empty_dict
        = Some \<lparr>entity_key = Some (IdInt 7), entity_data = ''seven''\<rparr>
   \<and> fst (load_entity dao_id (Some (IdInt 7)) world_empty_dict) = Inr PNone
   \<and> fst (BaseJsonDao_load dao_id (Some (IdInt 7)) world_empty_dict) = Inr None"
  by (simp add: world_empty_dict_def world_seven_def world0_def cache_defs dao_defs Let_def
        BaseJsonDao_load_def dao_id_def decimal_def nat_digits.simps)

section \<open>delete\<close>

lemmas digit_simps = decimal_def nat_digits.simps

lemma memcache_local_cache_put: "memcache (snd (local_cache_put key ns v w)) = memcache w"
  by (simp add: local_cache_put_def Let_def split: option.splits)

lemma memcache_local_cache_get: "memcache (snd (local_cache_get key ns w)) = memcache w"
  by (simp add: local_cache_get_def Let_def split: option.splits)

lemma memcache_get_keeps:
  "memcache (snd (MemcacheManager_get key namespace w)) = memcache w"
  by (auto simp: MemcacheManager_get_def Let_def local_cache_get_def memcache_get_def
        local_cache_put_def count_hit_or_miss_def split: option.splits prod.splits sum.splits)

lemma memcache_set_keeps:
  "memcache w k \<noteq> None \<Longrightarrow> memcache (snd (MemcacheManager_set key v namespace w)) k \<noteq> None"
  by (auto simp: MemcacheManager_set_def Let_def memcache_set_def local_cache_put_def
        split: option.splits prod.splits sum.splits)

lemma memcache_set_cases:
  "memcache (snd (MemcacheManager_set key v namespace w)) k = memcache w k
   \<or> memcache (snd (MemcacheManager_set key v namespace w)) k = Some v"
  by (auto simp: MemcacheManager_set_def Let_def memcache_set_def local_cache_put_def
        split: option.splits prod.splits sum.splits)

lemma datastore_get: "datastore (snd (MemcacheManager_get key namespace w)) = datastore w"
  by (auto simp: MemcacheManager_get_def Let_def local_cache_get_def memcache_get_def
        local_cache_put_def count_hit_or_miss_def split: option.splits prod.splits sum.splits)

lemma datastore_set: "datastore (snd (MemcacheManager_set key v namespace w)) = datastore w"
  by (auto simp: MemcacheManager_set_def Let_def memcache_set_def local_cache_put_def
        split: option.splits prod.splits sum.splits)

lemma CACHE_DELETE_get:
  "CACHE_DELETE (snd (MemcacheManager_get key namespace w)) = CACHE_DELETE w"
  by (auto simp: MemcacheManager_get_def Let_def local_cache_get_def memcache_get_def
        local_cache_put_def count_hit_or_miss_def split: option.splits prod.splits sum.splits)

lemma CACHE_DELETE_set:
  "CACHE_DELETE (snd (MemcacheManager_set key v namespace w)) = CACHE_DELETE w"
  by (auto simp: MemcacheManager_set_def Let_def memcache_set_def local_cache_put_def
        split: option.splits prod.splits sum.splits)

section \<open>What the cache operations leave alone\<close>

lemma cache_frame_refl: "cache_frame w w"
  by (simp add: cache_frame_def)

lemma cache_frame_trans: "cache_frame w w1 \<Longrightarrow> cache_frame w1 w2 \<Longrightarrow> cache_frame w w2"
  by (simp add: cache_frame_def)

lemma is_same_frame:
  "cache_frame w w' \<Longrightarrow> is_same_app_context_if_set w' = is_same_app_context_if_set w"
  by (auto simp: cache_frame_def is_same_app_context_if_set_def split: option.splits)

lemma frame_local_cache_get: "cache_frame w (snd (local_cache_get key ns w))"
  by (simp add: local_cache_get_def Let_def cache_frame_def split: option.splits)

lemma frame_local_cache_put: "cache_frame w (snd (local_cache_put key ns v w))"
  by (simp add: local_cache_put_def Let_def cache_frame_def split: option.splits)

lemma frame_local_cache_get_multi_loop:
  "cache_frame w (snd (local_cache_get_multi_loop keys ns vs w))"
proof (induction keys arbitrary: vs w)
  case Nil
  show ?case by (simp add: cache_frame_refl)
next
  case (Cons key keys)
  obtain r w1 where g: "local_cache_get key ns w = (r, w1)"
    by (cases "local_cache_get key ns w")
  have f1: "cache_frame w w1" using frame_local_cache_get [of w key ns] g by simp
  show ?case
  proof (cases r)
    case (Inl e)
    with g f1 show ?thesis by simp
  next
    case (Inr p)
    obtain c v where p: "p = (c, v)" by (cases p)
    show ?thesis
      using g Inr p f1 Cons.IH [of w1 "vs @ [v]"]
      by (auto intro: cache_frame_trans)
  qed
qed

lemma frame_local_cache_put_multi_loop:
  "cache_frame w (snd (local_cache_put_multi_loop items ns w))"
proof (induction items arbitrary: w)
  case Nil
  show ?case by (simp add: cache_frame_refl)
next
  case (Cons kv items)
  obtain key v where kv: "kv = (key, v)" by (cases kv)
  obtain r w1 where g: "local_cache_put key ns v w = (r, w1)"
    by (cases "local_cache_put key ns v w")
  have f1: "cache_frame w w1" using frame_local_cache_put [of w key ns v] g by simp
  show ?case
    using kv g f1 Cons.IH [of w1]
    by (cases r) (auto intro: cache_frame_trans)
qed

lemma frame_count_fold:
  "cache_frame w (fold (\<lambda>(k, v). count_hit_or_miss v) vals w)"
proof (induction vals arbitrary: w)
  case Nil
  show ?case by (simp add: cache_frame_refl)
next
  case (Cons kv vals)
  have "cache_frame w (count_hit_or_miss (snd kv) w)"
    by (simp add: count_hit_or_miss_def cache_frame_def)
  then show ?case
    using Cons.IH [of "count_hit_or_miss (snd kv) w"]
    by (auto simp: case_prod_beta intro: cache_frame_trans)
qed

lemma frame_get: "cache_frame w (snd (MemcacheManager_get key namespace w))"
  by (auto simp: MemcacheManager_get_def Let_def local_cache_get_def memcache_get_def
        local_cache_put_def count_hit_or_miss_def cache_frame_def
        split: option.splits prod.splits sum.splits)

lemma frame_set: "cache_frame w (snd (MemcacheManager_set key v namespace w))"
  by (auto simp: MemcacheManager_set_def Let_def memcache_set_def local_cache_put_def
        cache_frame_def split: option.splits prod.splits sum.splits)

lemma frame_local_cache_get_multi:
  "cache_frame w (snd (local_cache_get_multi keys ns w))"
  using frame_local_cache_get_multi_loop [of w keys ns "[]"]
  by (simp add: local_cache_get_multi_def cache_frame_refl)

lemma frame_local_cache_put_multi:
  "cache_frame w (snd (local_cache_put_multi vals ns w))"
  using frame_local_cache_put_multi_loop [of w vals ns]
  by (simp add: local_cache_put_multi_def cache_frame_refl)

lemma frame_memcache_get_multi: "cache_frame w (snd (memcache_get_multi keys ns w))"
  by (simp add: memcache_get_multi_def cache_frame_refl)

lemma frame_memcache_set_multi: "cache_frame w (snd (memcache_set_multi m ns w))"
  by (simp add: memcache_set_multi_def cache_frame_def)

lemma frame_get_multi: "cache_frame w (snd (MemcacheManager_get_multi keys namespace w))"
proof (cases "CAN_USE_MEMCACHE w")
  case False
  then show ?thesis by (simp add: MemcacheManager_get_multi_def cache_frame_refl)
next
  case True
  let ?ns = "get_namespace' namespace w"
  obtain r w1 where a: "local_cache_get_multi keys ?ns w = (r, w1)"
    by (cases "local_cache_get_multi keys ?ns w")
  have f1: "cache_frame w w1" using frame_local_cache_get_multi [of w keys ?ns] a by simp
  show ?thesis
  proof (cases r)
    case (Inl e)
    with True a f1 show ?thesis by (simp add: MemcacheManager_get_multi_def Let_def)
  next
    case (Inr p)
    obtain c vs where p: "p = (c, vs)" by (cases p)
    show ?thesis
    proof (cases c)
      case True
      with \<open>CAN_USE_MEMCACHE w\<close> a Inr p f1 show ?thesis
        by (simp add: MemcacheManager_get_multi_def Let_def)
    next
      case False
      obtain r2 w2 where b: "memcache_get_multi keys ?ns w1 = (r2, w2)"
        by (cases "memcache_get_multi keys ?ns w1")
      have f2: "cache_frame w w2"
        using frame_memcache_get_multi [of w1 keys ?ns] b f1
        by (auto intro: cache_frame_trans)
      show ?thesis
      proof (cases r2)
        case (Inl e)
        with \<open>CAN_USE_MEMCACHE w\<close> a Inr p False b f2 show ?thesis
          by (simp add: MemcacheManager_get_multi_def Let_def)
      next
        case r2: (Inr vals)
        let ?w3 = "fold (\<lambda>(k, v). count_hit_or_miss v) vals w2"
        obtain r4 w4 where c4: "local_cache_put_multi vals ?ns ?w3 = (r4, w4)"
          by (cases "local_cache_put_multi vals ?ns ?w3")
        have f4: "cache_frame w w4"
          using frame_local_cache_put_multi [of ?w3 vals ?ns] c4 f2
            frame_count_fold [of w2 vals]
          by (auto intro: cache_frame_trans)
        show ?thesis
          using \<open>CAN_USE_MEMCACHE w\<close> a Inr p False b r2 c4 f4
          by (cases r4) (simp_all add: MemcacheManager_get_multi_def Let_def)
      qed
    qed
  qed
qed

lemma frame_set_multi: "cache_frame w (snd (MemcacheManager_set_multi m namespace w))"
proof -
  let ?w1 = "w\<lparr>CACHE_PUT := CACHE_PUT w + 1\<rparr>"
  let ?ns = "get_namespace' namespace ?w1"
  have f1: "cache_frame w ?w1" by (simp add: cache_frame_def)
  obtain r2 w2 where b: "memcache_set_multi m ?ns ?w1 = (r2, w2)"
    by (cases "memcache_set_multi m ?ns ?w1")
  have f2: "cache_frame w w2"
    using frame_memcache_set_multi [of ?w1 m ?ns] b f1 by (auto intro: cache_frame_trans)
  obtain r3 w3 where c: "local_cache_put_multi m ?ns w2 = (r3, w3)"
    by (cases "local_cache_put_multi m ?ns w2")
  have f3: "cache_frame w w3"
    using frame_local_cache_put_multi [of w2 m ?ns] c f2 by (auto intro: cache_frame_trans)
  have big: "cache_frame w (w\<lparr>CACHE_PUT_TOO_BIG := CACHE_PUT_TOO_BIG w + 1\<rparr>)"
    by (simp add: cache_frame_def)
  show ?thesis
    using b c f2 f3 big
    by (cases r2; cases r3)
       (simp_all add: MemcacheManager_set_multi_def Let_def cache_frame_refl)
qed

lemma frame_load_entity: "cache_frame w (snd (load_entity cls obj_id w))"
proof (cases "id_truthy obj_id")
  case False
  then show ?thesis
    by (cases obj_id) (simp_all add: load_entity_def cache_frame_refl)
next
  case True
  then obtain i where i: "obj_id = Some i" by (cases obj_id) simp_all
  obtain r w1 where g: "MemcacheManager_get (memcache_key w cls i) None w = (r, w1)"
    by (cases "MemcacheManager_get (memcache_key w cls i) None w")
  have f1: "cache_frame w w1" using frame_get [of w "memcache_key w cls i" None] g by simp
  have s: "\<And>v. cache_frame w (snd (MemcacheManager_set (memcache_key w cls i) v None w1))"
    using f1 frame_set cache_frame_trans by blast
  show ?thesis
    using True i g f1 s
    by (cases r)
       (auto simp: load_entity_def then_do_simps then_do_set
          split: sum.splits option.splits)
qed

section \<open>Post-load hooks\<close>

lemma run_hooks_log:
  "hook_calls (snd (run_hooks n hooks dto_list w)) = hook_calls w @ hook_log n hooks dto_list"
  by (induction hooks arbitrary: n dto_list w) simp_all

lemma run_hooks_frame:
  "memcache (snd (run_hooks n hooks dto_list w)) = memcache w"
  by (induction hooks arbitrary: n dto_list w) simp_all

lemma hook_log_each_once: "map fst (hook_log n hooks dto_list) = [n..<n + length hooks]"
proof (induction hooks arbitrary: n dto_list)
  case Nil
  show ?case by simp
next
  case (Cons hook hooks)
  have "[n..<n + length (hook # hooks)] = n # [Suc n..<Suc n + length hooks]"
    by (subst upt_rec) simp
  then show ?case using Cons.IH [of "Suc n"] by simp
qed

lemma load_hook_calls:
  assumes "POST_LOAD_HOOKS cls = Some hooks"
      and "load_entity cls obj_id w = (Inr (PEntity e), w1)"
  shows "hook_calls (snd (BaseJsonDao_load cls obj_id w))
           = hook_calls w @ hook_log 0 hooks [make_dto w1 obj_id e]"
proof -
  have hc: "hook_calls w1 = hook_calls w"
    using frame_load_entity [of w cls obj_id] assms(2) by (simp add: cache_frame_def)
  obtain ds w2 where m: "run_hooks 0 hooks [make_dto w1 obj_id e] w1 = (ds, w2)"
    by (cases "run_hooks 0 hooks [make_dto w1 obj_id e] w1")
  have "hook_calls w2 = hook_calls w1 @ hook_log 0 hooks [make_dto w1 obj_id e]"
    using run_hooks_log [of 0 hooks "[make_dto w1 obj_id e]" w1] m by simp
  moreover have "snd (BaseJsonDao_load cls obj_id w) = w2"
    using assms m
    by (cases ds) (simp_all add: BaseJsonDao_load_def then_do_simps maybe_apply_post_hooks_def)
  ultimately show ?thesis using hc by simp
qed

lemma load_no_hook_calls:
  assumes "load_entity cls obj_id w = (Inr v, w1)" and "\<not> truthy v"
  shows "BaseJsonDao_load cls obj_id w = (Inr None, w1) \<and> hook_calls w1 = hook_calls w"
  using assms frame_load_entity [of w cls obj_id]
  by (simp add: BaseJsonDao_load_def then_do_simps cache_frame_def)

lemma run_hooks_world:
  "snd (run_hooks n hooks dto_list w)
     = w\<lparr>hook_calls := hook_calls w @ hook_log n hooks dto_list\<rparr>"
  by (induction hooks arbitrary: n dto_list w) simp_all

lemma memcache_key_frame:
  "cache_frame w w1 \<Longrightarrow> memcache_key w1 cls i = memcache_key w cls i"
  by (cases i) (simp_all add: memcache_key_def cache_frame_def)

lemma map_of_fold_update:
  "map_of (fold (\<lambda>(k, v). AList.update k v) (zip ks (map f ks)) acc) i
     = (if i \<in> set ks then Some (f i) else map_of acc i)"
  by (induction ks arbitrary: acc) (simp_all add: update_conv')

lemma fetch_datastore_entities_get:
  "map_of (fetch_datastore_entities cls ks w) i
     = (if i \<in> set ks then Some (db_get (ENTITY_kind cls) i w) else None)"
  by (simp add: fetch_datastore_entities_def map_of_fold_update)

lemma weave_hooks:
  assumes "\<And>i. i \<in> set ids \<Longrightarrow>
             (case map_of de i of None \<Rightarrow> None | Some eo \<Rightarrow> eo)
               = (if key_in (key i) me then None else db_get kind i w)"
      and "weave w me de (map (\<lambda>i. (i, key i)) ids) ret upd hk = Inr (ret', upd', hk')"
  shows "hk' = hk @ List.map_filter
                      (\<lambda>i. if key_in (key i) me then None
                           else map_option (make_dto w (Some i)) (db_get kind i w)) ids"
  using assms
proof (induction ids arbitrary: ret upd hk)
  case Nil
  then show ?case by simp
next
  case (Cons i ids)
  have de: "(case map_of de i of None \<Rightarrow> None | Some eo \<Rightarrow> eo)
              = (if key_in (key i) me then None else db_get kind i w)"
    using Cons.prems(1) by simp
  have rest: "\<And>j. j \<in> set ids \<Longrightarrow>
             (case map_of de j of None \<Rightarrow> None | Some eo \<Rightarrow> eo)
               = (if key_in (key j) me then None else db_get kind j w)"
    using Cons.prems(1) by simp
  show ?case
  proof (cases "key_in (key i) me")
    case False
    show ?thesis
    proof (cases "db_get kind i w")
      case None
      with False de Cons.prems(2) Cons.IH [OF rest] show ?thesis
        by simp
    next
      case (Some e)
      with False de Cons.prems(2)
        Cons.IH [OF rest, of "ret @ [Fresh (make_dto w (Some i) e)]"
                   "AList.update (key i) (PEntity e) upd" "hk @ [make_dto w (Some i) e]"]
      show ?thesis
        by simp
    qed
  next
    case True
    with de have d: "(case map_of de i of None \<Rightarrow> None | Some eo \<Rightarrow> eo) = None" by simp
    show ?thesis
    proof (cases "subscript me (key i)")
      case (Inl err)
      with True d Cons.prems(2) show ?thesis by simp
    next
      case (Inr v)
      show ?thesis
      proof (cases "eq_NO_OBJECT v")
        case eq: True
        with True d Inr Cons.prems(2) Cons.IH [OF rest] show ?thesis
          by simp
      next
        case neq: False
        with True d Inr Cons.prems(2) Cons.IH [OF rest] show ?thesis
          by (cases v) simp_all
      qed
    qed
  qed
qed

lemma zip_map_self: "zip ids (map f ids) = map (\<lambda>i. (i, f i)) ids"
  by (induction ids) simp_all

lemma datastore_keys_filter:
  "filter (\<lambda>(obj_id, k). \<not> key_in k me) (map (\<lambda>i. (i, f i)) ids)
     = map (\<lambda>i. (i, f i)) (filter (\<lambda>i. \<not> key_in (f i) me) ids)"
  by (induction ids) simp_all

lemma fetch_datastore_entities_Nil: "fetch_datastore_entities cls [] w = []"
  by (simp add: fetch_datastore_entities_def)

lemma bulk_datastore_entities:
  assumes "i \<in> set ids"
  shows "(case map_of (if filter (\<lambda>i. \<not> key_in (f i) me) ids \<noteq> []
                       then fetch_datastore_entities cls
                              (filter (\<lambda>i. \<not> key_in (f i) me) ids) w
                       else []) i of
            None \<Rightarrow> None | Some eo \<Rightarrow> eo)
         = (if key_in (f i) me then None else db_get (ENTITY_kind cls) i w)"
proof (cases "filter (\<lambda>i. \<not> key_in (f i) me) ids = []")
  case True
  then have "key_in (f i) me" using assms by (auto simp: filter_empty_conv)
  with True show ?thesis by simp
next
  case False
  with assms show ?thesis by (simp add: fetch_datastore_entities_get)
qed

lemma bulk_load_hook_calls:
  assumes hooks: "POST_LOAD_HOOKS cls = Some hooks"
      and gm: "MemcacheManager_get_multi (map (memcache_key w cls) ids) None w = (Inr me, w1)"
      and ok: "fst (BaseJsonDao_bulk_load cls ids w) = Inr ret"
  shows "hook_calls (snd (BaseJsonDao_bulk_load cls ids w))
           = hook_calls w @ hook_log 0 hooks (store_loaded_dtos cls w1 me ids)"
proof -
  have fr: "cache_frame w w1"
    using frame_get_multi [of w "map (memcache_key w cls) ids" None] gm by simp
  let ?key = "memcache_key w cls"
  let ?dk = "filter (\<lambda>i. \<not> key_in (?key i) me) ids"
  let ?de = "if ?dk \<noteq> [] then fetch_datastore_entities cls ?dk w1 else []"
  let ?wv = "weave w1 me ?de (map (\<lambda>i. (i, ?key i)) ids) [] [] []"
  have unfold: "BaseJsonDao_bulk_load cls ids w =
      (case ?wv of
         Inl err \<Rightarrow> (Inl err, w1)
       | Inr (r, upd, hk) \<Rightarrow>
           (case maybe_apply_post_hooks cls hk w1 of
              (hooked, w2) \<Rightarrow>
                if ?de \<noteq> [] then
                  then_do (MemcacheManager_set_multi upd None w2)
                    (\<lambda>u w3. (Inr (ret_after_hooks r hooked), w3))
                else (Inr (ret_after_hooks r hooked), w2)))"
    using gm
    by (simp add: BaseJsonDao_bulk_load_def Let_def then_do_simps zip_map_self
          datastore_keys_filter comp_def fetch_datastore_entities_Nil
          cong: sum.case_cong prod.case_cong)
  obtain r upd hk where wv: "?wv = Inr (r, upd, hk)"
    using ok unfold by (cases ?wv) auto
  have hk: "hk = store_loaded_dtos cls w1 me ids"
    using weave_hooks [of ids ?de ?key me "ENTITY_kind cls" w1 "[]" "[]" "[]" r upd hk]
      bulk_datastore_entities [of _ ids ?key me cls w1] wv
    by (simp add: store_loaded_dtos_def memcache_key_frame [OF fr])
  obtain hooked w2 where rh: "run_hooks 0 hooks hk w1 = (hooked, w2)"
    by (cases "run_hooks 0 hooks hk w1")
  have w2: "hook_calls w2 = hook_calls w1 @ hook_log 0 hooks hk"
    using run_hooks_log [of 0 hooks hk w1] rh by simp
  have sm: "hook_calls (snd (MemcacheManager_set_multi upd None w2)) = hook_calls w2"
    using frame_set_multi [of w2 upd None] by (simp add: cache_frame_def)
  have "hook_calls (snd (BaseJsonDao_bulk_load cls ids w)) = hook_calls w2"
  proof (cases "?de \<noteq> []")
    case False
    with unfold wv rh hooks show ?thesis by (simp add: maybe_apply_post_hooks_def)
  next
    case True
    obtain r3 w3 where s3: "MemcacheManager_set_multi upd None w2 = (r3, w3)"
      by (cases "MemcacheManager_set_multi upd None w2")
    with sm have "hook_calls w3 = hook_calls w2" by simp
    with True unfold wv rh hooks s3 show ?thesis
      by (cases r3) (simp_all add: maybe_apply_post_hooks_def then_do_simps)
  qed
  with w2 hk fr show ?thesis by (simp add: cache_frame_def)
qed

lemma store_loaded_dtos_frame:
  assumes "cache_frame w w1"
  shows "store_loaded_dtos cls w1 me ids = store_loaded_dtos cls w me ids"
proof -
  have "db_get (ENTITY_kind cls) i w1 = db_get (ENTITY_kind cls) i w" for i
    using assms by (simp add: db_get_def cache_frame_def)
  moreover have "make_dto w1 = make_dto w"
    using assms by (intro ext) (simp add: make_dto_def cache_frame_def)
  ultimately show ?thesis
    by (simp add: store_loaded_dtos_def memcache_key_frame [OF assms] cong: if_cong)
qed

lemmas bulk_defs = BaseJsonDao_bulk_load_def fetch_datastore_entities_def
  maybe_apply_post_hooks_def apply_hook_def store_loaded_dtos_def

lemma dao_hooked_hooks: "POST_LOAD_HOOKS dao_hooked = Some [add_lang]"
  by (simp add: dao_hooked_def)

lemma world_stale_load_entity: "fst (load_entity dao_hooked (Some (IdInt 7)) world_stale) = Inr (PEntity entity7)"
  by (simp add: world_stale_def world0_def dao_hooked_def entity7_def
        cache_defs dao_defs Let_def)

lemma world0_load_entity: "fst (load_entity dao_hooked (Some (IdInt 7)) world0) = Inr PNone"
  by (simp add: world0_def dao_hooked_def cache_defs dao_defs Let_def)

lemma world_seven_get_multi: "fst (MemcacheManager_get_multi
            (map (memcache_key world_seven dao_hooked) [IdInt 7, IdInt 8]) None world_seven)
       = Inr (MDict [])"
  by (simp add: world_seven_def world0_def dao_hooked_def cache_defs dao_defs Let_def
      digit_simps List.map_filter_def)

lemma world_seven_bulk_load: "fst (BaseJsonDao_bulk_load dao_hooked [IdInt 7, IdInt 8] world_seven)
       = Inr [Some \<lparr>dto_id = Some (IdInt 7),
                    dto_dict = [(''lang'', ''fr''), (''data'', ''seven'')]\<rparr>, None]"
  by (simp add: world_seven_def world0_def dao_hooked_def cache_defs dao_defs bulk_defs
      Let_def digit_simps List.map_filter_def add_lang_def)


section \<open>bulk_load\<close>

lemma weave_ok:
  assumes de: "\<And>i. i \<in> set ids \<Longrightarrow>
             (case map_of de i of None \<Rightarrow> None | Some eo \<Rightarrow> eo)
               = (if key_in (memcache_key w cls i) me then None
                  else db_get (ENTITY_kind cls) i w)"
      and ok: "\<And>i. i \<in> set ids \<Longrightarrow> key_in (memcache_key w cls i) me \<Longrightarrow>
             \<exists>v. subscript me (memcache_key w cls i) = Inr v
                 \<and> (eq_NO_OBJECT v \<or> is_entity v)"
  shows "\<exists>hk'. weave w me de (map (\<lambda>i. (i, memcache_key w cls i)) ids) ret upd hk
           = Inr (ret @ map (bulk_slot w cls me) ids, fold (bulk_step w cls me) ids upd, hk')"
  using assms
proof (induction ids arbitrary: ret upd hk)
  case Nil
  then show ?case by simp
next
  case (Cons i ids)
  have dei: "(case map_of de i of None \<Rightarrow> None | Some eo \<Rightarrow> eo)
              = (if key_in (memcache_key w cls i) me then None
                 else db_get (ENTITY_kind cls) i w)"
    using Cons.prems(1) by simp
  have rest: "\<And>j. j \<in> set ids \<Longrightarrow>
             (case map_of de j of None \<Rightarrow> None | Some eo \<Rightarrow> eo)
               = (if key_in (memcache_key w cls j) me then None
                  else db_get (ENTITY_kind cls) j w)"
    using Cons.prems(1) by simp
  have okr: "\<And>j. j \<in> set ids \<Longrightarrow> key_in (memcache_key w cls j) me \<Longrightarrow>
             \<exists>v. subscript me (memcache_key w cls j) = Inr v
                 \<and> (eq_NO_OBJECT v \<or> is_entity v)"
    using Cons.prems(2) by simp
  note IH = Cons.IH [OF rest okr]
  show ?case
  proof (cases "key_in (memcache_key w cls i) me")
    case False
    show ?thesis
    proof (cases "db_get (ENTITY_kind cls) i w")
      case None
      with False dei
        IH [of "ret @ [Done None]" "AList.update (memcache_key w cls i) NO_OBJECT upd" hk]
      show ?thesis by (simp add: bulk_slot_def bulk_step_def)
    next
      case (Some e)
      with False dei
        IH [of "ret @ [Fresh (make_dto w (Some i) e)]"
               "AList.update (memcache_key w cls i) (PEntity e) upd"
               "hk @ [make_dto w (Some i) e]"]
      show ?thesis by (simp add: bulk_slot_def bulk_step_def)
    qed
  next
    case True
    with dei have d: "(case map_of de i of None \<Rightarrow> None | Some eo \<Rightarrow> eo) = None" by simp
    from Cons.prems(2) [of i] True obtain v
      where v: "subscript me (memcache_key w cls i) = Inr v"
        and vv: "eq_NO_OBJECT v \<or> is_entity v" by auto
    show ?thesis
    proof (cases "eq_NO_OBJECT v")
      case eq: True
      then have "\<not> is_entity v" by (cases v) simp_all
      then have sl: "bulk_slot w cls me i = Done None"
        using True v by (cases v) (simp_all add: bulk_slot_def)
      from True d v eq IH [of "ret @ [Done None]" upd hk] sl
      show ?thesis by (simp add: bulk_step_def)
    next
      case neq: False
      with vv obtain e where e: "v = PEntity e" by (cases v) simp_all
      have sl: "bulk_slot w cls me i = Done (Some (make_dto w (Some i) e))"
        using True v e by (simp add: bulk_slot_def)
      from True d v e neq IH [of "ret @ [Done (Some (make_dto w (Some i) e))]" upd hk] sl
      show ?thesis by (simp add: bulk_step_def)
    qed
  qed
qed

lemma length_ret_after_hooks: "length (ret_after_hooks r hooked) = length r"
  by (induction r hooked rule: ret_after_hooks.induct) simp_all

lemma ret_after_hooks_None:
  "n < length r \<Longrightarrow> (ret_after_hooks r hooked ! n = None) = (r ! n = Done None)"
proof (induction r hooked arbitrary: n rule: ret_after_hooks.induct)
  case (1 hooked)
  then show ?case by simp
next
  case (2 d ret hooked)
  then show ?case by (cases n) simp_all
next
  case (3 d ret)
  then show ?case by (cases n) simp_all
next
  case (4 d ret h hooked)
  then show ?case by (cases n) simp_all
qed

lemma fold_count_world:
  "\<exists>h m. fold (\<lambda>(k, v). count_hit_or_miss v) vals w = w\<lparr>CACHE_HIT := h, CACHE_MISS := m\<rparr>"
proof (induction vals arbitrary: w)
  case Nil
  have "w = w\<lparr>CACHE_HIT := CACHE_HIT w, CACHE_MISS := CACHE_MISS w\<rparr>" by simp
  then show ?case by (metis fold_simps(1))
next
  case (Cons kv vals)
  obtain k v where kv: "kv = (k, v)" by (cases kv)
  obtain h m where
    "fold (\<lambda>(k, v). count_hit_or_miss v) vals (count_hit_or_miss v w)
       = (count_hit_or_miss v w)\<lparr>CACHE_HIT := h, CACHE_MISS := m\<rparr>"
    using Cons.IH [of "count_hit_or_miss v w"] by blast
  then have "fold (\<lambda>(k, v). count_hit_or_miss v) (kv # vals) w
       = w\<lparr>CACHE_HIT := h, CACHE_MISS := m\<rparr>"
    using kv by (simp add: count_hit_or_miss_def)
  then show ?case by blast
qed

lemma get_multi_live:
  assumes "\<not> IS_READONLY w" and "CAN_USE_MEMCACHE w" and "\<not> memcache_unavailable w"
  shows "\<exists>h m. MemcacheManager_get_multi keys None w =
           (Inr (MDict (List.map_filter
                          (\<lambda>k. map_option (Pair k) (memcache w (get_namespace w, k)))
                          (remdups keys))),
            w\<lparr>CACHE_HIT := h, CACHE_MISS := m\<rparr>)"
proof -
  let ?vals = "List.map_filter (\<lambda>k. map_option (Pair k) (memcache w (get_namespace w, k)))
                 (remdups keys)"
  obtain h m where hm: "fold (\<lambda>(k, v). count_hit_or_miss v) ?vals w
      = w\<lparr>CACHE_HIT := h, CACHE_MISS := m\<rparr>"
    using fold_count_world by blast
  have "MemcacheManager_get_multi keys None w
      = (Inr (MDict ?vals), w\<lparr>CACHE_HIT := h, CACHE_MISS := m\<rparr>)"
    using assms hm
    by (simp add: MemcacheManager_get_multi_def Let_def local_cache_get_multi_def
          memcache_get_multi_def local_cache_put_multi_def get_namespace'_def)
  then show ?thesis by blast
qed

lemma get_multi_disabled:
  "\<not> CAN_USE_MEMCACHE w \<Longrightarrow> MemcacheManager_get_multi keys None w = (Inr (MDict []), w)"
  by (simp add: MemcacheManager_get_multi_def)

lemma map_of_found:
  "map_of (List.map_filter (\<lambda>k. map_option (Pair k) (m k)) ks) k
     = (if k \<in> set ks then m k else None)"
  by (induction ks) (auto split: option.splits)

lemma keys_of_found:
  "(k \<in> set (map fst (List.map_filter (\<lambda>k. map_option (Pair k) (m k)) ks)))
     = (k \<in> set ks \<and> m k \<noteq> None)"
  by (induction ks) (auto split: option.splits)

lemma maybe_apply_world:
  "\<exists>hl. snd (maybe_apply_post_hooks cls dto_list w) = w\<lparr>hook_calls := hl\<rparr>"
proof (cases "POST_LOAD_HOOKS cls")
  case None
  have "w = w\<lparr>hook_calls := hook_calls w\<rparr>" by simp
  with None show ?thesis by (metis maybe_apply_post_hooks_def option.simps(4) snd_conv)
next
  case (Some hooks)
  then have "snd (maybe_apply_post_hooks cls dto_list w)
      = w\<lparr>hook_calls := hook_calls w @ hook_log 0 hooks dto_list\<rparr>"
    by (simp add: maybe_apply_post_hooks_def run_hooks_world)
  then show ?thesis by blast
qed

lemma fold_memcache_other:
  "k \<notin> set (map fst mapping) \<Longrightarrow>
     fold (\<lambda>(k, v) m. m((ns, k) \<mapsto> v)) mapping m0 (ns, k) = m0 (ns, k)"
  by (induction mapping arbitrary: m0) (auto simp: case_prod_beta)

lemma fold_memcache_found:
  "distinct (map fst mapping) \<Longrightarrow> map_of mapping k = Some v \<Longrightarrow>
     fold (\<lambda>(k, v) m. m((ns, k) \<mapsto> v)) mapping m0 (ns, k) = Some v"
proof (induction mapping arbitrary: m0)
  case Nil
  then show ?case by simp
next
  case (Cons kv mapping)
  obtain k' v' where kv: "kv = (k', v')" by (cases kv)
  show ?case
  proof (cases "k' = k")
    case True
    with Cons.prems kv have v: "v' = v" and nk: "k \<notin> set (map fst mapping)" by auto
    have "fold (\<lambda>(k, v) m. m((ns, k) \<mapsto> v)) (kv # mapping) m0 (ns, k)
        = fold (\<lambda>(k, v) m. m((ns, k) \<mapsto> v)) mapping (m0((ns, k) \<mapsto> v)) (ns, k)"
      using True kv v by simp
    also have "\<dots> = (m0((ns, k) \<mapsto> v)) (ns, k)"
      using nk by (rule fold_memcache_other)
    also have "\<dots> = Some v" by simp
    finally show ?thesis .
  next
    case False
    with Cons.prems kv Cons.IH [of "m0((ns, k') \<mapsto> v')"] show ?thesis by simp
  qed
qed

lemma set_multi_live:
  assumes "\<not> IS_READONLY w" and "CAN_USE_MEMCACHE w" and "\<not> memcache_unavailable w"
      and "mapping \<noteq> []" and "batch_accepted w mapping"
  shows "MemcacheManager_set_multi mapping None w
           = (Inr (), w\<lparr>CACHE_PUT_TOO_BIG := CACHE_PUT_TOO_BIG w + 1\<rparr>)
       \<or> MemcacheManager_set_multi mapping None w
           = (Inr (), w\<lparr>CACHE_PUT := CACHE_PUT w + 1,
                        memcache := fold (\<lambda>(k, v) m. m((get_namespace w, k) \<mapsto> v)) mapping
                                      (memcache w)\<rparr>)"
  using assms
  by (simp add: MemcacheManager_set_multi_def Let_def memcache_set_multi_def
        local_cache_put_multi_def get_namespace'_def get_namespace_def
        batch_accepted_def)

lemma distinct_bulk_steps:
  "distinct (map fst upd) \<Longrightarrow> distinct (map fst (fold (bulk_step w cls me) ids upd))"
  by (induction ids arbitrary: upd) (simp_all add: bulk_step_def distinct_update)

lemma bulk_steps_other:
  "k \<notin> memcache_key w cls ` set ids \<Longrightarrow>
     map_of (fold (bulk_step w cls me) ids upd) k = map_of upd k"
  by (induction ids arbitrary: upd) (auto simp: bulk_step_def update_conv')

lemma bulk_steps_sentinel:
  assumes "inj_on (memcache_key w cls) (set ids)"
      and "i \<in> set ids"
      and "\<not> key_in (memcache_key w cls i) me"
      and "db_get (ENTITY_kind cls) i w = None"
  shows "map_of (fold (bulk_step w cls me) ids upd) (memcache_key w cls i) = Some NO_OBJECT"
  using assms
proof (induction ids arbitrary: upd)
  case Nil
  then show ?case by simp
next
  case (Cons j ids)
  have inj: "inj_on (memcache_key w cls) (set ids)"
    using Cons.prems(1) by (simp add: inj_on_def)
  show ?case
  proof (cases "i \<in> set ids")
    case True
    from Cons.IH [OF inj True Cons.prems(3) Cons.prems(4)] show ?thesis by simp
  next
    case False
    with Cons.prems(2) have ij: "j = i" by simp
    have "memcache_key w cls i \<notin> memcache_key w cls ` set ids"
    proof
      assume "memcache_key w cls i \<in> memcache_key w cls ` set ids"
      then obtain x where x: "x \<in> set ids" "memcache_key w cls x = memcache_key w cls i"
        by auto
      with Cons.prems(1) ij have "x = i" by (auto simp: inj_on_def)
      with x False show False by simp
    qed
    then have "map_of (fold (bulk_step w cls me) ids (bulk_step w cls me i upd))
                 (memcache_key w cls i)
               = map_of (bulk_step w cls me i upd) (memcache_key w cls i)"
      by (rule bulk_steps_other)
    also have "\<dots> = Some NO_OBJECT"
      using Cons.prems(3) Cons.prems(4) by (simp add: bulk_step_def update_conv')
    finally show ?thesis using ij by simp
  qed
qed

lemma bulk_steps_nonempty:
  "i \<in> set ids \<Longrightarrow> \<not> key_in (memcache_key w cls i) me \<Longrightarrow>
     fold (bulk_step w cls me) ids upd \<noteq> []"
proof (induction ids arbitrary: upd)
  case Nil
  then show ?case by simp
next
  case (Cons j ids)
  have keep: "u \<noteq> [] \<Longrightarrow> fold (bulk_step w cls me) xs u \<noteq> []" for xs u
    by (induction xs arbitrary: u) (simp_all add: bulk_step_def)
  show ?case
  proof (cases "i \<in> set ids")
    case True
    from Cons.IH [OF True Cons.prems(2)] show ?thesis by simp
  next
    case False
    with Cons.prems have "bulk_step w cls me j upd \<noteq> []" by (simp add: bulk_step_def)
    then show ?thesis using keep by simp
  qed
qed

lemma bulk_load_unfold:
  assumes gm: "MemcacheManager_get_multi (map (memcache_key w cls) ids) None w = (Inr me, w1)"
  shows "BaseJsonDao_bulk_load cls ids w =
      (case weave w1 me
              (if filter (\<lambda>i. \<not> key_in (memcache_key w cls i) me) ids \<noteq> []
               then fetch_datastore_entities cls
                      (filter (\<lambda>i. \<not> key_in (memcache_key w cls i) me) ids) w1
               else [])
              (map (\<lambda>i. (i, memcache_key w cls i)) ids) [] [] [] of
         Inl err \<Rightarrow> (Inl err, w1)
       | Inr (r, upd, hk) \<Rightarrow>
           (case maybe_apply_post_hooks cls hk w1 of
              (hooked, w2) \<Rightarrow>
                if filter (\<lambda>i. \<not> key_in (memcache_key w cls i) me) ids \<noteq> [] then
                  then_do (MemcacheManager_set_multi upd None w2)
                    (\<lambda>u w3. (Inr (ret_after_hooks r hooked), w3))
                else (Inr (ret_after_hooks r hooked), w2)))"
proof -
  have ne: "ks \<noteq> [] \<Longrightarrow> fetch_datastore_entities cls ks w1 \<noteq> []" for ks
  proof -
    assume "ks \<noteq> []"
    then obtain i where "i \<in> set ks" by (cases ks) auto
    then have "map_of (fetch_datastore_entities cls ks w1) i \<noteq> None"
      by (simp add: fetch_datastore_entities_get)
    then show ?thesis by auto
  qed
  show ?thesis
    using gm ne
    by (simp add: BaseJsonDao_bulk_load_def Let_def then_do_simps zip_map_self
          datastore_keys_filter comp_def fetch_datastore_entities_Nil
          cong: sum.case_cong prod.case_cong)
qed

lemma get_multi_outside_snapshot:
  assumes "\<not> IS_READONLY w" and "CAN_USE_MEMCACHE w \<longrightarrow> \<not> memcache_unavailable w"
  shows "\<exists>me h m.
           MemcacheManager_get_multi (map (memcache_key w cls) ids) None w
             = (Inr me, w\<lparr>CACHE_HIT := h, CACHE_MISS := m\<rparr>)
           \<and> (\<forall>i \<in> set ids.
                 key_in (memcache_key w cls i) me = (cached_entry cls i w \<noteq> None)
                 \<and> (\<forall>v. cached_entry cls i w = Some v \<longrightarrow>
                        subscript me (memcache_key w cls i) = Inr v))"
proof (cases "CAN_USE_MEMCACHE w")
  case False
  have "w = w\<lparr>CACHE_HIT := CACHE_HIT w, CACHE_MISS := CACHE_MISS w\<rparr>" by simp
  then have "MemcacheManager_get_multi (map (memcache_key w cls) ids) None w
      = (Inr (MDict []), w\<lparr>CACHE_HIT := CACHE_HIT w, CACHE_MISS := CACHE_MISS w\<rparr>)"
    using False get_multi_disabled [of w "map (memcache_key w cls) ids"] by simp
  moreover have "\<forall>i \<in> set ids.
      key_in (memcache_key w cls i) (MDict []) = (cached_entry cls i w \<noteq> None)
      \<and> (\<forall>v. cached_entry cls i w = Some v \<longrightarrow>
             subscript (MDict []) (memcache_key w cls i) = Inr v)"
    using False by (simp add: cached_entry_def)
  ultimately show ?thesis by blast
next
  case True
  let ?keys = "map (memcache_key w cls) ids"
  let ?vals = "List.map_filter (\<lambda>k. map_option (Pair k) (memcache w (get_namespace w, k)))
                 (remdups ?keys)"
  from True assms obtain h m where gm:
    "MemcacheManager_get_multi ?keys None w
       = (Inr (MDict ?vals), w\<lparr>CACHE_HIT := h, CACHE_MISS := m\<rparr>)"
    using get_multi_live [of w ?keys] by blast
  have "\<forall>i \<in> set ids.
      key_in (memcache_key w cls i) (MDict ?vals) = (cached_entry cls i w \<noteq> None)
      \<and> (\<forall>v. cached_entry cls i w = Some v \<longrightarrow>
             subscript (MDict ?vals) (memcache_key w cls i) = Inr v)"
  proof
    fix i assume "i \<in> set ids"
    then have mem: "memcache_key w cls i \<in> set (remdups ?keys)" by simp
    show "key_in (memcache_key w cls i) (MDict ?vals) = (cached_entry cls i w \<noteq> None)
      \<and> (\<forall>v. cached_entry cls i w = Some v \<longrightarrow>
             subscript (MDict ?vals) (memcache_key w cls i) = Inr v)"
      using True mem
        keys_of_found [of "memcache_key w cls i" "\<lambda>k. memcache w (get_namespace w, k)"
                         "remdups ?keys"]
        map_of_found [of "\<lambda>k. memcache w (get_namespace w, k)" "remdups ?keys"
                        "memcache_key w cls i"]
      by (simp add: cached_entry_def del: set_map set_remdups)
  qed
  with gm show ?thesis by blast
qed

lemma bulk_slot_None:
  assumes "key_in (memcache_key w1 cls i) me = (c \<noteq> None)"
      and "\<And>v. c = Some v \<Longrightarrow> subscript me (memcache_key w1 cls i) = Inr v"
      and "case c of None \<Rightarrow> True | Some v \<Rightarrow> eq_NO_OBJECT v \<or> is_entity v"
  shows "(bulk_slot w1 cls me i = Done None)
           = (case c of Some v \<Rightarrow> eq_NO_OBJECT v
              | None \<Rightarrow> db_get (ENTITY_kind cls) i w1 = None)"
proof (cases c)
  case None
  with assms(1) show ?thesis by (simp add: bulk_slot_def split: option.splits)
next
  case (Some v)
  with assms have k: "key_in (memcache_key w1 cls i) me"
    and s: "subscript me (memcache_key w1 cls i) = Inr v"
    and v: "eq_NO_OBJECT v \<or> is_entity v" by simp_all
  show ?thesis
    using Some k s v by (cases v) (simp_all add: bulk_slot_def)
qed

section \<open>get_all on a kind that is not empty\<close>

text \<open>
  Outside a snapshot, with caching enabled, the memcache service answering and
  every value within the size ceiling, by either measure: when the first get_all returns DTOs, the
  second get_all returns the same DTOs and runs no query. Only the empty kind
  is scanned again.
\<close>

lemma get_live:
  assumes "\<not> IS_READONLY w" and "CAN_USE_MEMCACHE w" and "\<not> memcache_unavailable w"
  shows "MemcacheManager_get key None w
           = (Inr (case memcache w (get_namespace w, key) of None \<Rightarrow> PNone | Some v \<Rightarrow> v),
              count_hit_or_miss
                (case memcache w (get_namespace w, key) of None \<Rightarrow> PNone | Some v \<Rightarrow> v) w)"
  using assms
  by (simp add: MemcacheManager_get_def Let_def local_cache_get_def memcache_get_def
        local_cache_put_def get_namespace'_def count_hit_or_miss_def)

lemma set_live:
  assumes "\<not> IS_READONLY w" and "CAN_USE_MEMCACHE w" and "\<not> memcache_unavailable w"
      and "getsizeof w v \<le> MEMCACHE_MAX" and "serialized_size w v \<le> MEMCACHE_MAX"
  shows "MemcacheManager_set key v None w
           = (Inr (), w\<lparr>CACHE_PUT := CACHE_PUT w + 1,
                        memcache := (memcache w)((get_namespace w, key) \<mapsto> v)\<rparr>)"
  using assms
  by (simp add: MemcacheManager_set_def Let_def memcache_set_def local_cache_put_def
        get_namespace'_def get_namespace_def)

lemma get_all_iter_loop_world:
  "\<exists>q. snd (get_all_iter_loop cls c acc w) = w\<lparr>query_runs := q\<rparr>"
proof (induction cls c acc w rule: get_all_iter_loop.induct)
  case (1 cls prev_cursor acc w)
  show ?case
  proof (cases "query_run (ENTITY_kind cls) prev_cursor w = []")
    case True
    then have "snd (get_all_iter_loop cls prev_cursor acc w)
        = w\<lparr>query_runs := query_runs w + 1\<rparr>"
      by (subst get_all_iter_loop.simps) (simp add: count_query_run_def)
    then show ?thesis by blast
  next
    case False
    from "1.IH" [OF False] obtain q where
      "snd (get_all_iter_loop cls
             (prev_cursor + length (query_run (ENTITY_kind cls) prev_cursor w))
             (acc @ map (\<lambda>e. make_dto w (entity_key e) e)
                      (query_run (ENTITY_kind cls) prev_cursor w))
             (count_query_run w))
         = (count_query_run w)\<lparr>query_runs := q\<rparr>"
      by blast
    with False have "snd (get_all_iter_loop cls prev_cursor acc w) = w\<lparr>query_runs := q\<rparr>"
      by (subst get_all_iter_loop.simps) (simp add: count_query_run_def)
    then show ?thesis by blast
  qed
qed

lemma count_hit_or_miss_fields:
  "IS_READONLY (count_hit_or_miss v w) = IS_READONLY w"
  "CAN_USE_MEMCACHE (count_hit_or_miss v w) = CAN_USE_MEMCACHE w"
  "memcache_unavailable (count_hit_or_miss v w) = memcache_unavailable w"
  "current_namespace (count_hit_or_miss v w) = current_namespace w"
  "DEFAULT_NAMESPACE_NAME (count_hit_or_miss v w) = DEFAULT_NAMESPACE_NAME w"
  "memcache (count_hit_or_miss v w) = memcache w"
  "getsizeof (count_hit_or_miss v w) = getsizeof w"
  "serialized_size (count_hit_or_miss v w) = serialized_size w"
  "query_runs (count_hit_or_miss v w) = query_runs w"
  by (simp_all add: count_hit_or_miss_def)

lemma get_all_hit:
  assumes ro: "\<not> IS_READONLY w" and can: "CAN_USE_MEMCACHE w"
      and up: "\<not> memcache_unavailable w"
      and c: "memcache w (get_namespace w, memcache_all_key cls) = Some v"
      and v: "\<not> is_None v" "\<not> eq_NO_OBJECT v"
  shows "get_all_mapped cls w = (Inr v, count_hit_or_miss v w)"
  using get_live [OF ro can up, of "memcache_all_key cls"] c v
  by (simp add: get_all_mapped_def then_do_simps)

lemma get_all_mapped_miss:
  assumes "MemcacheManager_get (memcache_all_key cls) None w = (Inr v, w1)"
      and "\<not> (\<not> is_None v \<and> \<not> eq_NO_OBJECT v)"
      and "get_all_iter cls w1 = (ds, w2)"
  shows "get_all_mapped cls w
           = (Inr (PDict (fold (\<lambda>d. AList.update (dto_id d) d) ds [])),
              snd (MemcacheManager_set (memcache_all_key cls)
                     (if fold (\<lambda>d. AList.update (dto_id d) d) ds [] \<noteq> []
                      then PDict (fold (\<lambda>d. AList.update (dto_id d) d) ds [])
                      else NO_OBJECT) None w2))"
  using assms
  by (cases "is_None v"; cases "eq_NO_OBJECT v")
     (simp_all add: get_all_mapped_def then_do_simps then_do_set Let_def)

lemma get_all_twice_nonempty:
  assumes ro: "\<not> IS_READONLY w" and can: "CAN_USE_MEMCACHE w"
      and up: "\<not> memcache_unavailable w"
      and fits: "\<forall>v. getsizeof w v \<le> MEMCACHE_MAX"
      and fits': "\<forall>v. serialized_size w v \<le> MEMCACHE_MAX"
      and first: "fst (BaseJsonDao_get_all cls w) = Inr dtos" and ne: "dtos \<noteq> []"
  shows "fst (BaseJsonDao_get_all cls (snd (BaseJsonDao_get_all cls w))) = Inr dtos
       \<and> query_runs (snd (BaseJsonDao_get_all cls (snd (BaseJsonDao_get_all cls w))))
           = query_runs (snd (BaseJsonDao_get_all cls w))"
proof -
  let ?k = "memcache_all_key cls"
  let ?v0 = "case memcache w (get_namespace w, ?k) of None \<Rightarrow> PNone | Some v \<Rightarrow> v"
  let ?w1 = "count_hit_or_miss ?v0 w"
  have g: "MemcacheManager_get ?k None w = (Inr ?v0, ?w1)"
    by (rule get_live [OF ro can up])
  have st1: "\<not> IS_READONLY ?w1" "CAN_USE_MEMCACHE ?w1" "\<not> memcache_unavailable ?w1"
    "get_namespace ?w1 = get_namespace w" "memcache ?w1 = memcache w"
    "getsizeof ?w1 = getsizeof w"
    using ro can up by (simp_all add: count_hit_or_miss_fields get_namespace_def)
  have key: "\<exists>m wa. get_all_mapped cls w = (Inr m, wa) \<and> \<not> IS_READONLY wa
      \<and> CAN_USE_MEMCACHE wa \<and> \<not> memcache_unavailable wa
      \<and> py_values m = Inr dtos
      \<and> memcache wa (get_namespace wa, ?k) = Some m \<and> \<not> is_None m \<and> \<not> eq_NO_OBJECT m"
  proof (cases "\<not> is_None ?v0 \<and> \<not> eq_NO_OBJECT ?v0")
    case True
    then obtain v where c: "memcache w (get_namespace w, ?k) = Some v" and v0: "?v0 = v"
      by (cases "memcache w (get_namespace w, ?k)") simp_all
    have m: "get_all_mapped cls w = (Inr v, ?w1)"
      using g True v0 by (simp add: get_all_mapped_def then_do_simps)
    have "py_values v = Inr dtos"
      using first m by (simp add: BaseJsonDao_get_all_def then_do_simps split: sum.splits)
    with m st1 c True v0 show ?thesis by simp
  next
    case False
    obtain ds w2 where it: "get_all_iter cls ?w1 = (ds, w2)"
      by (cases "get_all_iter cls ?w1")
    obtain q where w2: "w2 = ?w1\<lparr>query_runs := q\<rparr>"
      using get_all_iter_loop_world [of cls 0 "[]" ?w1] it by (auto simp: get_all_iter_def)
    let ?result = "fold (\<lambda>d. AList.update (dto_id d) d) ds []"
    let ?c = "if ?result \<noteq> [] then PDict ?result else NO_OBJECT"
    have st2: "\<not> IS_READONLY w2" "CAN_USE_MEMCACHE w2" "\<not> memcache_unavailable w2"
      "getsizeof w2 ?c \<le> MEMCACHE_MAX" "get_namespace w2 = get_namespace w"
      "serialized_size w2 ?c \<le> MEMCACHE_MAX"
      using ro can up fits fits'
      by (simp_all add: w2 get_namespace_def count_hit_or_miss_fields)
    let ?w3 = "w2\<lparr>CACHE_PUT := CACHE_PUT w2 + 1,
                   memcache := (memcache w2)((get_namespace w2, ?k) \<mapsto> ?c)\<rparr>"
    have s: "MemcacheManager_set ?k ?c None w2 = (Inr (), ?w3)"
      by (rule set_live [OF st2(1) st2(2) st2(3) st2(4) st2(6)])
    have m: "get_all_mapped cls w = (Inr (PDict ?result), ?w3)"
      using get_all_mapped_miss [OF g False it] s by simp
    have pv: "py_values (PDict ?result) = Inr dtos"
      using first m by (simp add: BaseJsonDao_get_all_def then_do_simps split: sum.splits)
    with ne have rne: "?result \<noteq> []" by auto
    have "memcache ?w3 (get_namespace ?w3, ?k) = Some (PDict ?result)"
      using rne by (simp add: get_namespace_def)
    moreover have "\<not> IS_READONLY ?w3" "CAN_USE_MEMCACHE ?w3" "\<not> memcache_unavailable ?w3"
      using st2 by simp_all
    ultimately show ?thesis using m pv rne by simp
  qed
  then obtain m wa where m: "get_all_mapped cls w = (Inr m, wa)"
    and wa: "\<not> IS_READONLY wa" "CAN_USE_MEMCACHE wa" "\<not> memcache_unavailable wa"
    and pv: "py_values m = Inr dtos"
    and c: "memcache wa (get_namespace wa, ?k) = Some m"
    and mv: "\<not> is_None m" "\<not> eq_NO_OBJECT m"
    by blast
  have a1: "BaseJsonDao_get_all cls w = (Inr dtos, wa)"
    using m pv by (simp add: BaseJsonDao_get_all_def then_do_simps)
  have a2: "BaseJsonDao_get_all cls wa = (Inr dtos, count_hit_or_miss m wa)"
    using get_all_hit [OF wa c mv] pv by (simp add: BaseJsonDao_get_all_def then_do_simps)
  show ?thesis by (simp add: a1 a2 count_hit_or_miss_fields)
qed

section \<open>Hooks on cache-served DTOs\<close>

text \<open>
  C8. The datastore holds the record 7 and nothing is cached. A first bulk_load
  of the id 7 reads the record from the datastore, runs the hook on its DTO and
  caches the entity. From there the record is served from the cache: a second
  bulk_load of the id 7 returns the DTO without the hook's change, the hook being
  called on the empty list, while load of the id 7 calls the hook on the
  cache-served DTO and returns it with the hook's change.
\<close>

theorem load_hooks_cached_dto_bulk_load_does_not:
  "fst (BaseJsonDao_bulk_load dao_hooked [IdInt 7] world_seven)
       = Inr [Some \<lparr>dto_id = Some (IdInt 7),
                    dto_dict = [(''lang'', ''fr''), (''data'', ''seven'')]\<rparr>]
   \<and> hook_calls (snd (BaseJsonDao_bulk_load dao_hooked [IdInt 7] world_seven)) = [(0, [dto7])]
   \<and> memcache (snd (BaseJsonDao_bulk_load dao_hooked [IdInt 7] world_seven))
        (''ns_default'', ''(entity:Q:7)'') = Some (PEntity entity7)
   \<and> fst (BaseJsonDao_bulk_load dao_hooked [IdInt 7]
             (snd (BaseJsonDao_bulk_load dao_hooked [IdInt 7] world_seven)))
       = Inr [Some dto7]
   \<and> hook_calls (snd (BaseJsonDao_bulk_load dao_hooked [IdInt 7]
             (snd (BaseJsonDao_bulk_load dao_hooked [IdInt 7] world_seven))))
       = [(0, [dto7]), (0, [])]
   \<and> fst (BaseJsonDao_load dao_hooked (Some (IdInt 7))
             (snd (BaseJsonDao_bulk_load dao_hooked [IdInt 7] world_seven)))
       = Inr (Some \<lparr>dto_id = Some (IdInt 7),
                     dto_dict = [(''lang'', ''fr''), (''data'', ''seven'')]\<rparr>)
   \<and> hook_calls (snd (BaseJsonDao_load dao_hooked (Some (IdInt 7))
             (snd (BaseJsonDao_bulk_load dao_hooked [IdInt 7] world_seven))))
       = [(0, [dto7]), (0, [dto7])]"
  by (simp add: world_seven_def world0_def dao_hooked_def entity7_def dto7_def
        BaseJsonDao_load_def cache_defs dao_defs bulk_defs Let_def add_lang_def
        digit_simps List.map_filter_def batch_accepted_def)

section \<open>delete of a record that cannot be loaded\<close>

lemma memcache_set_exact:
  "memcache (snd (MemcacheManager_set key v namespace w)) = memcache w
   \<or> memcache (snd (MemcacheManager_set key v namespace w))
        = (memcache w)((get_namespace' namespace w, key) \<mapsto> v)"
  by (auto simp: MemcacheManager_set_def Let_def memcache_set_def local_cache_put_def
        get_namespace'_def get_namespace_def split: option.splits prod.splits sum.splits)

lemma get_namespace_frame: "cache_frame w w1 \<Longrightarrow> get_namespace w1 = get_namespace w"
  by (simp add: cache_frame_def get_namespace_def)

lemma single_key_not_all_key: "memcache_key w cls i \<noteq> memcache_all_key cls"
  by (simp add: memcache_key_def memcache_all_key_def)

lemma unloadable_load_entity:
  assumes "unloadable cls d w"
  shows "fst (load_entity cls (dto_id d) w) = Inr PNone
       \<and> datastore (snd (load_entity cls (dto_id d) w)) = datastore w
       \<and> CACHE_DELETE (snd (load_entity cls (dto_id d) w)) = CACHE_DELETE w
       \<and> (memcache (snd (load_entity cls (dto_id d) w)) = memcache w
          \<or> (\<exists>i. dto_id d = Some i
                 \<and> memcache (snd (load_entity cls (dto_id d) w))
                     = (memcache w)((get_namespace w, memcache_key w cls i) \<mapsto> NO_OBJECT)))"
proof (cases "dto_id d")
  case None
  then show ?thesis by (simp add: load_entity_def)
next
  case (Some i)
  show ?thesis
  proof (cases "id_truthy (Some i)")
    case False
    with Some show ?thesis by (simp add: load_entity_def)
  next
    case True
    obtain r w1 where g: "MemcacheManager_get (memcache_key w cls i) None w = (r, w1)"
      by (cases "MemcacheManager_get (memcache_key w cls i) None w")
    from assms Some True g obtain v where r: "r = Inr v"
      and v: "eq_NO_OBJECT v \<or> (\<not> truthy v \<and> get_entity_by_key cls i w1 = Inr None)"
      by (cases r) (auto simp: unloadable_def)
    have fr: "cache_frame w w1"
      using frame_get [of w "memcache_key w cls i" None] g by simp
    have w1: "datastore w1 = datastore w" "CACHE_DELETE w1 = CACHE_DELETE w"
      "memcache w1 = memcache w"
      using g datastore_get [of "memcache_key w cls i" None w]
        CACHE_DELETE_get [of "memcache_key w cls i" None w]
        memcache_get_keeps [of "memcache_key w cls i" None w]
      by simp_all
    show ?thesis
    proof (cases "eq_NO_OBJECT v")
      case True
      with Some \<open>id_truthy (Some i)\<close> g r w1 show ?thesis
        by (simp add: load_entity_def then_do_simps)
    next
      case False
      with v have f: "\<not> truthy v" "get_entity_by_key cls i w1 = Inr None" by simp_all
      have le: "load_entity cls (Some i) w
          = (Inr PNone, snd (MemcacheManager_set (memcache_key w cls i) NO_OBJECT None w1))"
        using \<open>id_truthy (Some i)\<close> g r False f
        by (simp add: load_entity_def then_do_simps then_do_set)
      have m: "memcache (snd (MemcacheManager_set (memcache_key w cls i) NO_OBJECT None w1))
                 = memcache w
               \<or> memcache (snd (MemcacheManager_set (memcache_key w cls i) NO_OBJECT None w1))
                 = (memcache w)((get_namespace w, memcache_key w cls i) \<mapsto> NO_OBJECT)"
        using memcache_set_exact [of "memcache_key w cls i" NO_OBJECT None w1] w1
          get_namespace_frame [OF fr]
        by (simp add: get_namespace'_def)
      show ?thesis
        using w1 m Some by (simp add: le datastore_set CACHE_DELETE_set)
    qed
  qed
qed

text \<open>
  C10, as stated, fails: for a DTO whose record is absent from the datastore but
  whose single-record cache entry still holds the entity, delete returns
  normally and removes both cache entries.
\<close>

theorem delete_of_cached_record_succeeds:
  "db_get ''Q'' (IdInt 7) world_stale = None
   \<and> memcache world_stale (''ns_default'', memcache_key world_stale dao_id (IdInt 7))
        = Some (PEntity entity7)
   \<and> fst (BaseJsonDao_delete dao_id dto7 world_stale) = Inr ()
   \<and> memcache (snd (BaseJsonDao_delete dao_id dto7 world_stale))
        (''ns_default'', memcache_key world_stale dao_id (IdInt 7)) = None
   \<and> memcache (snd (BaseJsonDao_delete dao_id dto7 world_stale))
        (''ns_default'', memcache_all_key dao_id) = None"
  by (simp add: world_stale_def world0_def dto7_def entity7_def dao_id_def
        BaseJsonDao_delete_def cache_defs dao_defs Let_def digit_simps)

text \<open>
  C10, amended. For every DTO for which _load_entity yields no entity, delete
  raises AttributeError (from \<open>entity.delete()\<close> on None) before it reaches its two
  cache deletes: the datastore and the counter of cache deletes are unchanged;
  the memcache service is as before, or differs from before in the one entry
  of the DTO's single-record key, which now holds the sentinel that
  _load_entity wrote; the aggregate entry is as before. So no entry is removed.
\<close>

theorem delete_requires_loadable:
  assumes "unloadable cls d w"
  shows "fst (BaseJsonDao_delete cls d w) = Inl AttributeError
       \<and> datastore (snd (BaseJsonDao_delete cls d w)) = datastore w
       \<and> CACHE_DELETE (snd (BaseJsonDao_delete cls d w)) = CACHE_DELETE w
       \<and> (memcache (snd (BaseJsonDao_delete cls d w)) = memcache w
          \<or> (\<exists>i. dto_id d = Some i
                 \<and> memcache (snd (BaseJsonDao_delete cls d w))
                     = (memcache w)((get_namespace w, memcache_key w cls i) \<mapsto> NO_OBJECT)))
       \<and> memcache (snd (BaseJsonDao_delete cls d w)) (get_namespace w, memcache_all_key cls)
           = memcache w (get_namespace w, memcache_all_key cls)"
proof -
  obtain w1 where le: "load_entity cls (dto_id d) w = (Inr PNone, w1)"
    using unloadable_load_entity [OF assms]
    by (cases "load_entity cls (dto_id d) w") simp
  then have del: "BaseJsonDao_delete cls d w = (Inl AttributeError, w1)"
    by (simp add: BaseJsonDao_delete_def then_do_simps)
  have u: "datastore w1 = datastore w" "CACHE_DELETE w1 = CACHE_DELETE w"
    "memcache w1 = memcache w
     \<or> (\<exists>i. dto_id d = Some i
            \<and> memcache w1
                = (memcache w)((get_namespace w, memcache_key w cls i) \<mapsto> NO_OBJECT))"
    using unloadable_load_entity [OF assms] by (simp_all add: le)
  have "memcache w1 (get_namespace w, memcache_all_key cls)
          = memcache w (get_namespace w, memcache_all_key cls)"
    using u(3)
  proof
    assume "memcache w1 = memcache w"
    then show ?thesis by simp
  next
    assume "\<exists>i. dto_id d = Some i
            \<and> memcache w1
                = (memcache w)((get_namespace w, memcache_key w cls i) \<mapsto> NO_OBJECT)"
    then obtain i where "memcache w1
        = (memcache w)((get_namespace w, memcache_key w cls i) \<mapsto> NO_OBJECT)"
      by blast
    then show ?thesis
      using single_key_not_all_key [of w cls i] by (simp del: fun_upd_apply add: fun_upd_other)
  qed
  then show ?thesis
    using u by (simp add: del)
qed

theorem delete_requires_loadable_witness:
  "unloadable dao_id dto7 world_aggregate
   \<and> fst (BaseJsonDao_delete dao_id dto7 world_aggregate) = Inl AttributeError
   \<and> datastore (snd (BaseJsonDao_delete dao_id dto7 world_aggregate)) = []
   \<and> CACHE_DELETE (snd (BaseJsonDao_delete dao_id dto7 world_aggregate)) = 0
   \<and> memcache (snd (BaseJsonDao_delete dao_id dto7 world_aggregate))
       = (memcache world_aggregate)((''ns_default'', ''(entity:Q:7)'') \<mapsto> NO_OBJECT)
   \<and> memcache (snd (BaseJsonDao_delete dao_id dto7 world_aggregate))
        (''ns_default'', ''(entity-get-all:Q)'') = Some (PDict [(Some (IdInt 3), dto3)])"
proof -
  have u: "unloadable dao_id dto7 world_aggregate"
    by (simp add: unloadable_def dto7_def dao_id_def world_aggregate_def world0_def
          cache_defs dao_defs Let_def digit_simps)
  have m: "memcache (snd (BaseJsonDao_delete dao_id dto7 world_aggregate))
       = (memcache world_aggregate)((''ns_default'', ''(entity:Q:7)'') \<mapsto> NO_OBJECT)"
    by (simp add: BaseJsonDao_delete_def dto7_def dao_id_def world_aggregate_def world0_def
          cache_defs dao_defs Let_def digit_simps)
  have a: "get_namespace world_aggregate = ''ns_default''"
       "memcache_all_key dao_id = ''(entity-get-all:Q)''"
       "datastore world_aggregate = []" "CACHE_DELETE world_aggregate = 0"
       "memcache world_aggregate (''ns_default'', ''(entity-get-all:Q)'')
          = Some (PDict [(Some (IdInt 3), dto3)])"
    by (simp_all add: world_aggregate_def world0_def get_namespace_def memcache_all_key_def
          dao_id_def)
  show ?thesis
    using u delete_requires_loadable [OF u] m a by simp
qed

section \<open>Oversize writes\<close>

text \<open>
  C6. An entity whose JSON text is longer than the per-item ceiling has a
  serialized size above MEMCACHE_MAX, while \<open>sys.getsizeof\<close> gives its own
  footprint of 64 bytes. With caching enabled, set of this entity passes the
  size gate, the service refuses the write and the handler swallows the error:
  set returns normally and the value is absent from the cache afterwards, but
  the write is counted in CACHE_PUT and not in CACHE_PUT_TOO_BIG.
\<close>

theorem oversize_entity_counted_as_put:
  "serialized_size world0 (PEntity big_entity) > MEMCACHE_MAX
   \<and> getsizeof world0 (PEntity big_entity) = 64
   \<and> MemcacheManager_set ''k'' (PEntity big_entity) None world0
       = (Inr (), world0\<lparr>CACHE_PUT := 1\<rparr>)
   \<and> CACHE_PUT_TOO_BIG (snd (MemcacheManager_set ''k'' (PEntity big_entity) None world0)) = 0
   \<and> CACHE_PUT (snd (MemcacheManager_set ''k'' (PEntity big_entity) None world0)) = 1
   \<and> memcache (snd (MemcacheManager_set ''k'' (PEntity big_entity) None world0))
        (''ns_default'', ''k'') = None"
proof -
  have a: "(64::nat) \<le> MEMCACHE_MAX" by (simp add: MEMCACHE_MAX_def)
  have b: "pickled_size (PEntity big_entity) > MEMCACHE_MAX" by (simp add: big_entity_def)
  have s: "MemcacheManager_set ''k'' (PEntity big_entity) None world0
       = (Inr (), world0\<lparr>CACHE_PUT := 1\<rparr>)"
    using a b
    by (simp add: world0_def MemcacheManager_set_def memcache_set_def get_namespace'_def
          get_namespace_def Let_def)
  show ?thesis
    using b by (simp add: s) (simp add: world0_def)
qed

end
